theory Spec2Isabelle
  imports Main "HOL-Library.Word"
begin

section \<open>The adapter layer of xml/helper.c\<close>

text \<open>
  helper.c is C glue between a host runtime and libxml2. The adapter's own statements are
  embedded one by one; every call into libxml2 or into the host runtime is recorded in a
  trace, so that "which calls, in which order, with which arguments" is a property of
  the value a function returns.
\<close>

subsection \<open>Machine values\<close>

text \<open>A pointer is a 64-bit address: \<open>NULL\<close> is 0 and \<open>(void*)(-1)\<close> is the all-ones word.
  A C \<open>int\<close> is a 32-bit word and a \<open>long\<close> a 64-bit word, read in two's complement.\<close>

type_synonym ptr = "64 word"
type_synonym c_int = "32 word"
type_synonym c_long = "64 word"

definition NULL :: ptr where
  "NULL = 0"

text \<open>Undefined behaviour of the C code is a value of the model.\<close>

datatype fault =
    Invalid_pointer ptr
  | Out_of_bounds
  | Signed_overflow

subsection \<open>The library's data, as far as the adapter looks at it\<close>

text \<open>\<open>xmlElementType\<close> of libxml2's tree.h.\<close>

datatype xmlElementType =
    XML_ELEMENT_NODE
  | XML_ATTRIBUTE_NODE
  | XML_TEXT_NODE
  | XML_CDATA_SECTION_NODE
  | XML_ENTITY_REF_NODE
  | XML_ENTITY_NODE
  | XML_PI_NODE
  | XML_COMMENT_NODE
  | XML_DOCUMENT_NODE
  | XML_DOCUMENT_TYPE_NODE
  | XML_DOCUMENT_FRAG_NODE
  | XML_NOTATION_NODE
  | XML_HTML_DOCUMENT_NODE
  | XML_DTD_NODE
  | XML_ELEMENT_DECL
  | XML_ATTRIBUTE_DECL
  | XML_ENTITY_DECL
  | XML_NAMESPACE_DECL
  | XML_XINCLUDE_START
  | XML_XINCLUDE_END

text \<open>The fields of \<open>struct _xmlNode\<close> that helper.c or \<open>xmlUnlinkNode\<close> read or write.\<close>

record xmlNode =
  node_type :: xmlElementType
  node_children :: ptr
  node_last :: ptr
  node_parent :: ptr
  node_next :: ptr
  node_prev :: ptr
  node_doc :: ptr
  node_properties :: ptr

text \<open>\<open>xmlErrorLevel\<close>: XML_ERR_NONE = 0, XML_ERR_WARNING = 1, XML_ERR_ERROR = 2,
  XML_ERR_FATAL = 3. \<open>err_message\<close> is \<open>None\<close> for a null \<open>message\<close> pointer.\<close>

record xmlError =
  err_code :: c_int
  err_level :: c_int
  err_message :: "string option"

definition XML_ERR_ERROR :: c_int where
  "XML_ERR_ERROR = 2"

definition XML_ERR_OK :: c_int where
  "XML_ERR_OK = 0"

text \<open>The library's state: the node structures it owns, by address, and its process-wide
  last error (\<open>None\<close> when \<open>xmlGetLastError\<close> returns NULL). In a state of the program
  neither NULL nor \<open>(void*)(-1)\<close> is the address of a node; no theorem below needs that.\<close>

record libstate =
  nodes :: "ptr \<rightharpoonup> xmlNode"
  lastError :: "xmlError option"

subsection \<open>The trace of calls leaving the adapter\<close>

text \<open>A \<open>void*\<close> that points to characters is the string it points to, \<open>None\<close> when null.\<close>

datatype event =
    XmlNodeWriteCallback ptr string c_int
  | Close_callback ptr
  | XmlResetLastError
  | XmlReadMemory "string option" c_int "string option" "string option" c_int
  | XmlFreeDoc ptr
  | XmlGetLastError
  | XmlParseInNodeContext ptr "string option" c_int c_int
  | Printf string "c_int list"
  | XmlDocGetRootElement ptr
  | XmlDocCopyNode ptr ptr c_int
  | XmlEncodeSpecialChars ptr "string option"
  | XmlUnlinkNode ptr
  | XmlUnlinkNodeCallback ptr ptr
  | XmlNodeSetContent ptr string
  | XmlFree string
  | XmlSaveToIO ptr "string option" c_int
  | XmlSaveTree ptr ptr
  | XmlSaveClose ptr
  | XmlDocDumpFormatMemoryEnc ptr "string option" c_int

record world =
  lib :: libstate
  calls :: "event list"

definition emit :: "event \<Rightarrow> world \<Rightarrow> world" where
  "emit e w = w\<lparr>calls := calls w @ [e]\<rparr>"

subsection \<open>Host callbacks\<close>

text \<open>Modelled from the spec: \<open>xmlNodeWriteCallback\<close> is the host runtime's write sink
  (\<open>write(sinkHandle, chunk, length)\<close>); it is declared in helper.h and implemented by the
  host. The model records the invocation and nothing else.\<close>

definition xmlNodeWriteCallback :: "ptr \<Rightarrow> string \<Rightarrow> c_int \<Rightarrow> world \<Rightarrow> world" where
  "xmlNodeWriteCallback ctx buffer len w = emit (XmlNodeWriteCallback ctx buffer len) w"

text \<open>Modelled from the spec: \<open>xmlUnlinkNodeCallback\<close> is the host runtime's node-removal
  callback (\<open>onChildUnlinked(childNode, hostHandle)\<close>), declared in helper.h and
  implemented by the host, which from then on owns the node. The model records the
  invocation and nothing else.\<close>

definition xmlUnlinkNodeCallback :: "ptr \<Rightarrow> ptr \<Rightarrow> world \<Rightarrow> world" where
  "xmlUnlinkNodeCallback child gonode w = emit (XmlUnlinkNodeCallback child gonode) w"

subsection \<open>xml\_write\_callback and close\_callback (helper.c, lines 5 to 14)\<close>

definition xml_write_callback :: "ptr \<Rightarrow> string \<Rightarrow> c_int \<Rightarrow> world \<Rightarrow> c_int \<times> world" where
  "xml_write_callback ctx buffer len w =
     (let w1 = (if 0 <s len then xmlNodeWriteCallback ctx buffer len w else w)
      in (len, w1))"

definition close_callback :: "ptr \<Rightarrow> world \<Rightarrow> c_int \<times> world" where
  "close_callback ctx w = (0, emit (Close_callback ctx) w)"

subsection \<open>Running C statements that can fault\<close>

definition fbind :: "fault + 'a \<Rightarrow> ('a \<Rightarrow> fault + 'b) \<Rightarrow> fault + 'b" where
  "fbind m f = (case m of Inl e \<Rightarrow> Inl e | Inr x \<Rightarrow> f x)"

text \<open>Reading \<open>p->field\<close>: a fault unless \<open>p\<close> is the address of a node structure.\<close>

definition deref :: "libstate \<Rightarrow> ptr \<Rightarrow> fault + xmlNode" where
  "deref L p = (case nodes L p of None \<Rightarrow> Inl (Invalid_pointer p) | Some n \<Rightarrow> Inr n)"

definition store :: "ptr \<Rightarrow> xmlNode \<Rightarrow> libstate \<Rightarrow> libstate" where
  "store p n L = L\<lparr>nodes := (nodes L)(p \<mapsto> n)\<rparr>"

text \<open>Writing fields of \<open>*p\<close>.\<close>

definition upd :: "ptr \<Rightarrow> (xmlNode \<Rightarrow> xmlNode) \<Rightarrow> libstate \<Rightarrow> fault + libstate" where
  "upd p f L = fbind (deref L p) (\<lambda>n. Inr (store p (f n) L))"

subsection \<open>Character buffers\<close>

definition NUL :: char where
  "NUL = CHR 0x00"

text \<open>The C string stored in an array of characters ends before the first NUL.\<close>

definition c_str :: "string \<Rightarrow> string" where
  "c_str s = takeWhile (\<lambda>c. c \<noteq> NUL) s"

text \<open>\<open>strncpy(dst, src, n)\<close> writes exactly \<open>n\<close> characters at the start of \<open>dst\<close>: the
  string at \<open>src\<close>, cut after \<open>n\<close> characters or padded with NUL up to \<open>n\<close>. The list
  \<open>dst\<close> is the whole array; writing past its end is a fault.\<close>

definition strncpy :: "string \<Rightarrow> string \<Rightarrow> nat \<Rightarrow> fault + string" where
  "strncpy dst src n =
     (if n \<le> length dst
      then Inr (take n (c_str src @ replicate n NUL) @ drop n dst)
      else Inl Out_of_bounds)"

text \<open>\<open>buf[i] = c\<close> for an \<open>int\<close> index.\<close>

definition store_char :: "string \<Rightarrow> int \<Rightarrow> char \<Rightarrow> fault + string" where
  "store_char buf i c =
     (if 0 \<le> i \<and> nat i < length buf then Inr (buf[nat i := c]) else Inl Out_of_bounds)"

text \<open>\<open>x - 1\<close> on \<open>int\<close>: undefined at INT_MIN.\<close>

definition int_pred :: "c_int \<Rightarrow> fault + c_int" where
  "int_pred x = (if sint x = - (2 ^ 31) then Inl Signed_overflow else Inr (x - 1))"

text \<open>The conversion of an \<open>int\<close> to \<open>size_t\<close> (64 bits): sign extension, read unsigned.\<close>

definition size_t_of_int :: "c_int \<Rightarrow> nat" where
  "size_t_of_int x = unat (scast x :: 64 word)"

subsection \<open>The other library functions, as parameters\<close>

text \<open>The parser, the tree copier, the encoder and the serializer are libxml2's. Each is a
  parameter: an arbitrary function of its arguments and of the library's state, so a
  theorem about a function of helper.c holds whatever the library does. A call goes
  through a wrapper that applies the parameter and adds the call to the trace; the
  library cannot touch the trace or the caller's buffers.

  \<open>parseInNodeContext\<close> returns the result code and what it stored through the \<open>lst\<close>
  out-parameter (\<open>None\<close>: nothing stored). \<open>saveTree\<close> and \<open>saveClose\<close> return the
  invocations of the registered I/O callbacks the library makes during the call, in
  order, and the call's result. \<open>docDumpFormatMemoryEnc\<close> returns what it stores through
  its two out-parameters: the text (\<open>None\<close> for NULL) and its size.\<close>

datatype io_request =
    Io_write string c_int
  | Io_close

record libxml2 =
  readMemory :: "string option \<Rightarrow> c_int \<Rightarrow> string option \<Rightarrow> string option \<Rightarrow> c_int
                  \<Rightarrow> libstate \<Rightarrow> ptr \<times> libstate"
  freeDoc :: "ptr \<Rightarrow> libstate \<Rightarrow> libstate"
  parseInNodeContext :: "ptr \<Rightarrow> string option \<Rightarrow> c_int \<Rightarrow> c_int
                  \<Rightarrow> libstate \<Rightarrow> (c_int \<times> ptr option) \<times> libstate"
  docGetRootElement :: "ptr \<Rightarrow> libstate \<Rightarrow> ptr"
  docCopyNode :: "ptr \<Rightarrow> ptr \<Rightarrow> c_int \<Rightarrow> libstate \<Rightarrow> ptr \<times> libstate"
  encodeSpecialChars :: "ptr \<Rightarrow> string option \<Rightarrow> libstate \<Rightarrow> string option"
  nodeSetContent :: "ptr \<Rightarrow> string \<Rightarrow> libstate \<Rightarrow> libstate"
  saveToIO :: "string option \<Rightarrow> c_int \<Rightarrow> libstate \<Rightarrow> ptr \<times> libstate"
  saveTree :: "ptr \<Rightarrow> ptr \<Rightarrow> libstate \<Rightarrow> (io_request list \<times> c_long) \<times> libstate"
  saveClose :: "ptr \<Rightarrow> libstate \<Rightarrow> (io_request list \<times> c_int) \<times> libstate"
  docDumpFormatMemoryEnc :: "ptr \<Rightarrow> string option \<Rightarrow> c_int
                  \<Rightarrow> libstate \<Rightarrow> (string option \<times> c_int) \<times> libstate"

text \<open>Modelled from the spec: \<open>xmlResetLastError\<close> and \<open>xmlGetLastError\<close> are libxml2's
  accessors of its "process-wide last-error state": the first clears it, the second
  returns it (NULL when there is none).\<close>

definition xmlResetLastError :: "world \<Rightarrow> world" where
  "xmlResetLastError w = emit XmlResetLastError (w\<lparr>lib := (lib w)\<lparr>lastError := None\<rparr>\<rparr>)"

definition xmlGetLastError :: "world \<Rightarrow> xmlError option \<times> world" where
  "xmlGetLastError w = (lastError (lib w), emit XmlGetLastError w)"

definition xmlReadMemory ::
  "libxml2 \<Rightarrow> string option \<Rightarrow> c_int \<Rightarrow> string option \<Rightarrow> string option \<Rightarrow> c_int
     \<Rightarrow> world \<Rightarrow> ptr \<times> world" where
  "xmlReadMemory X buffer sz url encoding options w =
     (let (d, L) = readMemory X buffer sz url encoding options (lib w)
      in (d, emit (XmlReadMemory buffer sz url encoding options) (w\<lparr>lib := L\<rparr>)))"

definition xmlFreeDoc :: "libxml2 \<Rightarrow> ptr \<Rightarrow> world \<Rightarrow> world" where
  "xmlFreeDoc X cur w = emit (XmlFreeDoc cur) (w\<lparr>lib := freeDoc X cur (lib w)\<rparr>)"

definition xmlParseInNodeContext ::
  "libxml2 \<Rightarrow> ptr \<Rightarrow> string option \<Rightarrow> c_int \<Rightarrow> c_int \<Rightarrow> world
     \<Rightarrow> (c_int \<times> ptr option) \<times> world" where
  "xmlParseInNodeContext X node data datalen options w =
     (let (r, L) = parseInNodeContext X node data datalen options (lib w)
      in (r, emit (XmlParseInNodeContext node data datalen options) (w\<lparr>lib := L\<rparr>)))"

definition xmlDocGetRootElement :: "libxml2 \<Rightarrow> ptr \<Rightarrow> world \<Rightarrow> ptr \<times> world" where
  "xmlDocGetRootElement X d w =
     (docGetRootElement X d (lib w), emit (XmlDocGetRootElement d) w)"

definition xmlDocCopyNode :: "libxml2 \<Rightarrow> ptr \<Rightarrow> ptr \<Rightarrow> c_int \<Rightarrow> world \<Rightarrow> ptr \<times> world" where
  "xmlDocCopyNode X node d extended w =
     (let (r, L) = docCopyNode X node d extended (lib w)
      in (r, emit (XmlDocCopyNode node d extended) (w\<lparr>lib := L\<rparr>)))"

definition xmlDocDumpFormatMemoryEnc ::
  "libxml2 \<Rightarrow> ptr \<Rightarrow> string option \<Rightarrow> c_int \<Rightarrow> world
     \<Rightarrow> (string option \<times> c_int) \<times> world" where
  "xmlDocDumpFormatMemoryEnc X d txt_encoding format w =
     (let (r, L) = docDumpFormatMemoryEnc X d txt_encoding format (lib w)
      in (r, emit (XmlDocDumpFormatMemoryEnc d txt_encoding format) (w\<lparr>lib := L\<rparr>)))"

text \<open>\<open>printf\<close> writes to the process's standard output, which is no part of any buffer of
  the caller: the call is recorded with its format and arguments.\<close>

definition printf :: "string \<Rightarrow> c_int list \<Rightarrow> world \<Rightarrow> world" where
  "printf fmt args w = emit (Printf fmt args) w"

definition xmlEncodeSpecialChars ::
  "libxml2 \<Rightarrow> ptr \<Rightarrow> string option \<Rightarrow> world \<Rightarrow> string option \<times> world" where
  "xmlEncodeSpecialChars X d input w =
     (encodeSpecialChars X d input (lib w), emit (XmlEncodeSpecialChars d input) w)"

definition xmlNodeSetContent :: "libxml2 \<Rightarrow> ptr \<Rightarrow> string \<Rightarrow> world \<Rightarrow> world" where
  "xmlNodeSetContent X cur content w =
     emit (XmlNodeSetContent cur content) (w\<lparr>lib := nodeSetContent X cur content (lib w)\<rparr>)"

text \<open>\<open>xmlFree\<close> releases a buffer of the library's allocator; the buffer is identified by
  its content.\<close>

definition xmlFree :: "string \<Rightarrow> world \<Rightarrow> world" where
  "xmlFree s w = emit (XmlFree s) w"

text \<open>The save context remembers the two callbacks and the handle that \<open>xmlSaveToIO\<close> was
  given; helper.c always registers \<open>xml_write_callback\<close> and \<open>close_callback\<close>. When the
  library invokes a registered callback, the adapter's function runs with that handle.\<close>

definition run_io :: "ptr \<Rightarrow> world \<Rightarrow> io_request \<Rightarrow> world" where
  "run_io ioctx w q =
     (case q of
        Io_write buffer len \<Rightarrow> snd (xml_write_callback ioctx buffer len w)
      | Io_close \<Rightarrow> snd (close_callback ioctx w))"

definition xmlSaveToIO ::
  "libxml2 \<Rightarrow> ptr \<Rightarrow> string option \<Rightarrow> c_int \<Rightarrow> world \<Rightarrow> ptr \<times> world" where
  "xmlSaveToIO X ioctx encoding options w =
     (let (c, L) = saveToIO X encoding options (lib w)
      in (c, emit (XmlSaveToIO ioctx encoding options) (w\<lparr>lib := L\<rparr>)))"

definition xmlSaveTree :: "libxml2 \<Rightarrow> ptr \<Rightarrow> ptr \<Rightarrow> ptr \<Rightarrow> world \<Rightarrow> c_long \<times> world" where
  "xmlSaveTree X ioctx ctxt node w =
     (let ((qs, r), L) = saveTree X ctxt node (lib w)
      in (r, foldl (run_io ioctx) (emit (XmlSaveTree ctxt node) (w\<lparr>lib := L\<rparr>)) qs))"

definition xmlSaveClose :: "libxml2 \<Rightarrow> ptr \<Rightarrow> ptr \<Rightarrow> world \<Rightarrow> c_int \<times> world" where
  "xmlSaveClose X ioctx ctxt w =
     (let ((qs, r), L) = saveClose X ctxt (lib w)
      in (r, foldl (run_io ioctx) (emit (XmlSaveClose ctxt) (w\<lparr>lib := L\<rparr>)) qs))"

subsection \<open>xmlUnlinkNode (libxml2)\<close>

text \<open>Modelled from the spec: \<open>xmlUnlinkNode\<close> belongs to libxml2 and is not in the
  repository; the spec says of it only that it "unlinks the node from its tree". The
  model does so statement by statement as the library's tree.c does:
  \<^verbatim>\<open>
  if (cur == NULL) return;
  if (cur->type == XML_NAMESPACE_DECL) return;
  if (cur->parent != NULL) {
      parent = cur->parent;
      if (cur->type == XML_ATTRIBUTE_NODE) {
          if (parent->properties == cur) parent->properties = cur->next;
      } else {
          if (parent->children == cur) parent->children = cur->next;
          if (parent->last == cur) parent->last = cur->prev;
      }
      cur->parent = NULL;
  }
  if (cur->next != NULL) cur->next->prev = cur->prev;
  if (cur->prev != NULL) cur->prev->next = cur->next;
  cur->next = cur->prev = NULL;
  \<close>
  For a DTD or an entity declaration the library also clears the document's subset
  pointers or entity table; that state is not represented here. Every field is read
  again from the heap after each write, so aliased pointers behave as in C.\<close>

definition unlink_from_parent :: "ptr \<Rightarrow> libstate \<Rightarrow> fault + libstate" where
  "unlink_from_parent cur L =
     fbind (deref L cur) (\<lambda>c.
       if node_parent c = NULL then Inr L
       else
         fbind (upd (node_parent c)
                  (\<lambda>p. if node_type c = XML_ATTRIBUTE_NODE
                        then (if node_properties p = cur
                              then p\<lparr>node_properties := node_next c\<rparr> else p)
                        else
                          (let p1 = (if node_children p = cur
                                     then p\<lparr>node_children := node_next c\<rparr> else p)
                           in if node_last p1 = cur
                              then p1\<lparr>node_last := node_prev c\<rparr> else p1))
                  L)
           (\<lambda>L1. upd cur (\<lambda>n. n\<lparr>node_parent := NULL\<rparr>) L1))"

definition unlink_from_next :: "ptr \<Rightarrow> libstate \<Rightarrow> fault + libstate" where
  "unlink_from_next cur L =
     fbind (deref L cur) (\<lambda>c.
       if node_next c \<noteq> NULL
       then upd (node_next c) (\<lambda>n. n\<lparr>node_prev := node_prev c\<rparr>) L
       else Inr L)"

definition unlink_from_prev :: "ptr \<Rightarrow> libstate \<Rightarrow> fault + libstate" where
  "unlink_from_prev cur L =
     fbind (deref L cur) (\<lambda>c.
       if node_prev c \<noteq> NULL
       then upd (node_prev c) (\<lambda>n. n\<lparr>node_next := node_next c\<rparr>) L
       else Inr L)"

definition xmlUnlinkNode :: "ptr \<Rightarrow> libstate \<Rightarrow> fault + libstate" where
  "xmlUnlinkNode cur L =
     (if cur = NULL then Inr L
      else
        fbind (deref L cur) (\<lambda>c.
          if node_type c = XML_NAMESPACE_DECL then Inr L
          else
            fbind (unlink_from_parent cur L) (\<lambda>L1.
            fbind (unlink_from_next cur L1) (\<lambda>L2.
            fbind (unlink_from_prev cur L2) (\<lambda>L3.
              upd cur (\<lambda>n. n\<lparr>node_next := NULL, node_prev := NULL\<rparr>) L3)))))"

text \<open>The adapter's call of \<open>xmlUnlinkNode\<close>: the library's effect, and the call in the
  trace.\<close>

definition call_xmlUnlinkNode :: "ptr \<Rightarrow> world \<Rightarrow> fault + world" where
  "call_xmlUnlinkNode cur w =
     fbind (xmlUnlinkNode cur (lib w))
       (\<lambda>L. Inr (emit (XmlUnlinkNode cur) (w\<lparr>lib := L\<rparr>)))"

subsection \<open>xmlDocDumpToString (helper.c, lines 30 to 35)\<close>

definition xmlDocDumpToString ::
  "libxml2 \<Rightarrow> ptr \<Rightarrow> string option \<Rightarrow> c_int \<Rightarrow> world \<Rightarrow> string option \<times> world" where
  "xmlDocDumpToString X doc encoding format w =
     (let ((buff, buffersize), w1) = xmlDocDumpFormatMemoryEnc X doc encoding format w
      in (buff, w1))"

subsection \<open>xmlParse (helper.c, lines 44 to 69)\<close>

text \<open>\<open>error_buffer\<close> is \<open>None\<close> for a null pointer and otherwise the array it points to; the
  function returns the document pointer, the array as it is afterwards, and the world.\<close>

definition xmlParse ::
  "libxml2 \<Rightarrow> string option \<Rightarrow> c_int \<Rightarrow> string option \<Rightarrow> string option \<Rightarrow> c_int
     \<Rightarrow> string option \<Rightarrow> c_int \<Rightarrow> world \<Rightarrow> fault + (ptr \<times> string option \<times> world)" where
  "xmlParse X buffer buffer_len url encoding options error_buffer error_buffer_len w =
     (let w1 = xmlResetLastError w;
          (doc, w2) = xmlReadMemory X buffer buffer_len url encoding options w1
      in if doc = NULL
         then
           (let w3 = xmlFreeDoc X doc w2;
                (error, w4) = xmlGetLastError w3
            in case error of
                 None \<Rightarrow> Inr (doc, error_buffer, w4)
               | Some e \<Rightarrow>
                   (case error_buffer of
                      None \<Rightarrow> Inr (doc, error_buffer, w4)
                    | Some c_error_buffer \<Rightarrow>
                        if XML_ERR_ERROR \<le>s err_level e
                        then
                          (case err_message e of
                             Some message \<Rightarrow>
                               fbind (int_pred error_buffer_len) (\<lambda>m.
                               fbind (strncpy c_error_buffer message (size_t_of_int m)) (\<lambda>b1.
                               fbind (store_char b1 (sint m) NUL) (\<lambda>b2.
                                 Inr (doc, Some b2, w4))))
                           | None \<Rightarrow> Inr (doc, error_buffer, w4))
                        else Inr (doc, error_buffer, w4)))
         else Inr (doc, error_buffer, w2))"

subsection \<open>xmlParseFragment (helper.c, lines 71 to 84)\<close>

text \<open>The block guarded by \<open>error_buffer != NULL && error_buffer_len > 0\<close> holds only
  comments: it is the empty statement \<open>w2 = w1\<close> on both sides.\<close>

definition xmlParseFragment ::
  "libxml2 \<Rightarrow> ptr \<Rightarrow> string option \<Rightarrow> c_int \<Rightarrow> string option \<Rightarrow> c_int
     \<Rightarrow> string option \<Rightarrow> c_int \<Rightarrow> world \<Rightarrow> ptr \<times> string option \<times> world" where
  "xmlParseFragment X doc buffer buffer_len url options error_buffer error_buffer_len w =
     (let root_element0 = NULL;
          ((errCode, lst), w1) = xmlParseInNodeContext X doc buffer buffer_len options w;
          root_element = (case lst of None \<Rightarrow> root_element0 | Some p \<Rightarrow> p)
      in if errCode \<noteq> XML_ERR_OK
         then
           (let w2 = (if error_buffer \<noteq> None \<and> 0 <s error_buffer_len then w1 else w1);
                w3 = printf ''errorcode %d\<newline>'' [errCode] w2
            in (NULL, error_buffer, w3))
         else (root_element, error_buffer, w1))"

subsection \<open>xmlParseFragmentAsDoc (helper.c, lines 86 to 100)\<close>

definition xmlParseFragmentAsDoc ::
  "libxml2 \<Rightarrow> ptr \<Rightarrow> string option \<Rightarrow> c_int \<Rightarrow> string option \<Rightarrow> string option \<Rightarrow> c_int
     \<Rightarrow> string option \<Rightarrow> c_int \<Rightarrow> world \<Rightarrow> ptr \<times> string option \<times> world" where
  "xmlParseFragmentAsDoc X doc buffer buffer_len url encoding options
       error_buffer error_buffer_len w =
     (let (tmpDoc, w1) = xmlReadMemory X buffer buffer_len url encoding options w
      in if tmpDoc = NULL then (NULL, error_buffer, w1)
         else
           (let (tmpRoot, w2) = xmlDocGetRootElement X tmpDoc w1
            in if tmpRoot = NULL then (NULL, error_buffer, w2)
               else
                 (let (tmpRoot', w3) = xmlDocCopyNode X tmpRoot doc 1 w2;
                      w4 = xmlFreeDoc X tmpDoc w3
                  in (tmpRoot', error_buffer, w4))))"

subsection \<open>xmlSetContent (helper.c, lines 102 to 118)\<close>

text \<open>The loop \<open>while (child) { next = child->next; xmlUnlinkNode(child);
  xmlUnlinkNodeCallback(child, gonode); child = next; }\<close>. Nothing bounds the number of
  iterations on an arbitrary heap: not returning is the value \<open>None\<close>.\<close>

partial_function (option) unlink_children :: "ptr \<Rightarrow> ptr \<Rightarrow> world \<Rightarrow> (fault + world) option"
  where
  "unlink_children gonode child w =
     (if child = NULL then Some (Inr w)
      else
        (case deref (lib w) child of
           Inl e \<Rightarrow> Some (Inl e)
         | Inr c \<Rightarrow>
             (let nxt = node_next c
              in case call_xmlUnlinkNode child w of
                   Inl e \<Rightarrow> Some (Inl e)
                 | Inr w1 \<Rightarrow>
                     unlink_children gonode nxt (xmlUnlinkNodeCallback child gonode w1))))"

definition xmlSetContent ::
  "libxml2 \<Rightarrow> ptr \<Rightarrow> ptr \<Rightarrow> string option \<Rightarrow> world \<Rightarrow> (fault + world) option" where
  "xmlSetContent X gonode n content w =
     (case deref (lib w) n of
        Inl e \<Rightarrow> Some (Inl e)
      | Inr node \<Rightarrow>
          (let child = node_children node;
               (encoded, w1) = xmlEncodeSpecialChars X (node_doc node) content w
           in case encoded of
                None \<Rightarrow> Some (Inr w1)
              | Some enc \<Rightarrow>
                  (case unlink_children gonode child w1 of
                     None \<Rightarrow> None
                   | Some (Inl e) \<Rightarrow> Some (Inl e)
                   | Some (Inr w2) \<Rightarrow>
                       Some (Inr (xmlFree enc (xmlNodeSetContent X n enc w2))))))"

subsection \<open>xmlNodePtrCheck and xmlUnlinkNodeWithCheck (helper.c, lines 120 to 132)\<close>

definition xmlNodePtrCheck :: "ptr \<Rightarrow> c_int" where
  "xmlNodePtrCheck node = (if node = - 1 then 0 else 1)"

definition xmlUnlinkNodeWithCheck :: "ptr \<Rightarrow> world \<Rightarrow> fault + (c_int \<times> world)" where
  "xmlUnlinkNodeWithCheck node w =
     fbind (deref (lib w) node) (\<lambda>n.
       if xmlNodePtrCheck (node_parent n) \<noteq> 0
       then fbind (call_xmlUnlinkNode node w) (\<lambda>w1. Inr (1, w1))
       else Inr (0, w))"

subsection \<open>xmlSaveNode (helper.c, lines 134 to 147)\<close>

definition xmlSaveNode ::
  "libxml2 \<Rightarrow> ptr \<Rightarrow> ptr \<Rightarrow> string option \<Rightarrow> c_int \<Rightarrow> world \<Rightarrow> c_int \<times> world" where
  "xmlSaveNode X wbuffer node encoding options w =
     (let (savectx, w1) = xmlSaveToIO X wbuffer encoding options w;
          (r1, w2) = xmlSaveTree X wbuffer savectx node w1
      in xmlSaveClose X wbuffer savectx w2)"

subsection \<open>Predicates used in the properties\<close>

text \<open>The children of a node as the library keeps them: \<open>sibling_chain L parent prv p cs\<close>
  says that following \<open>next\<close> from \<open>p\<close> visits exactly the nodes \<open>cs\<close> and ends in NULL,
  that each of them has \<open>parent\<close> as its parent and its predecessor as \<open>prev\<close> (\<open>prv\<close> for
  the first), and that none is an attribute or a namespace declaration.\<close>

fun sibling_chain :: "libstate \<Rightarrow> ptr \<Rightarrow> ptr \<Rightarrow> ptr \<Rightarrow> ptr list \<Rightarrow> bool" where
  "sibling_chain L parent prv p [] = (p = NULL)"
| "sibling_chain L parent prv p (c # cs) =
     (p = c \<and> c \<noteq> NULL \<and>
      (case nodes L c of
         None \<Rightarrow> False
       | Some n \<Rightarrow>
           node_parent n = parent \<and> node_prev n = prv
           \<and> node_type n \<noteq> XML_ATTRIBUTE_NODE \<and> node_type n \<noteq> XML_NAMESPACE_DECL
           \<and> sibling_chain L parent c (node_next n) cs))"

text \<open>\<open>has_children L n cs\<close>: \<open>n\<close> is a node whose \<open>children\<close> and \<open>last\<close> fields delimit
  the chain \<open>cs\<close> of distinct nodes, \<open>n\<close> not among them.\<close>

definition has_children :: "libstate \<Rightarrow> ptr \<Rightarrow> ptr list \<Rightarrow> bool" where
  "has_children L n cs =
     (case nodes L n of
        None \<Rightarrow> False
      | Some nd \<Rightarrow>
          n \<noteq> NULL \<and> n \<notin> set cs \<and> distinct cs
          \<and> sibling_chain L n NULL (node_children nd) cs
          \<and> node_last nd = (if cs = [] then NULL else last cs))"

text \<open>\<open>detached L c\<close>: the node \<open>c\<close> has neither parent nor siblings.\<close>

definition detached :: "libstate \<Rightarrow> ptr \<Rightarrow> bool" where
  "detached L c =
     (case nodes L c of
        None \<Rightarrow> False
      | Some n \<Rightarrow> node_parent n = NULL \<and> node_next n = NULL \<and> node_prev n = NULL)"

text \<open>The calls the loop makes for the children \<open>cs\<close>.\<close>

definition removal_calls :: "ptr \<Rightarrow> ptr list \<Rightarrow> event list" where
  "removal_calls gonode cs =
     concat (map (\<lambda>c. [XmlUnlinkNode c, XmlUnlinkNodeCallback c gonode]) cs)"

text \<open>The adapter's calls to the host that a sequence of callback invocations makes.\<close>

definition io_events :: "ptr \<Rightarrow> io_request list \<Rightarrow> event list" where
  "io_events ioctx qs =
     concat (map (\<lambda>q. case q of
                         Io_write buffer len \<Rightarrow>
                           if 0 < sint len then [XmlNodeWriteCallback ioctx buffer len] else []
                       | Io_close \<Rightarrow> [Close_callback ioctx]) qs)"

fun is_XmlSaveClose :: "event \<Rightarrow> bool" where
  "is_XmlSaveClose (XmlSaveClose c) = True"
| "is_XmlSaveClose e = False"

fun is_Close_callback :: "event \<Rightarrow> bool" where
  "is_Close_callback (Close_callback c) = True"
| "is_Close_callback e = False"

subsection \<open>Sample inputs\<close>

text \<open>A parent element at address 0x1000 with the single child 0x2000, in document 0x100.\<close>

definition ex_parent :: xmlNode where
  "ex_parent = \<lparr>node_type = XML_ELEMENT_NODE, node_children = 0x2000, node_last = 0x2000,
     node_parent = NULL, node_next = NULL, node_prev = NULL, node_doc = 0x100,
     node_properties = NULL\<rparr>"

definition ex_child :: xmlNode where
  "ex_child = \<lparr>node_type = XML_TEXT_NODE, node_children = NULL, node_last = NULL,
     node_parent = 0x1000, node_next = NULL, node_prev = NULL, node_doc = 0x100,
     node_properties = NULL\<rparr>"

definition ex_world :: world where
  "ex_world = \<lparr>lib = \<lparr>nodes = [0x1000 \<mapsto> ex_parent, 0x2000 \<mapsto> ex_child], lastError = None\<rparr>,
     calls = []\<rparr>"


text \<open>The same tree after \<open>xmlUnlinkNode\<close> of the child, with the call in the trace.\<close>

definition ex_unlinked :: world where
  "ex_unlinked =
     \<lparr>lib = \<lparr>nodes = [0x1000 \<mapsto> ex_parent\<lparr>node_children := NULL, node_last := NULL\<rparr>,
                       0x2000 \<mapsto> ex_child\<lparr>node_parent := NULL\<rparr>],
             lastError = None\<rparr>,
      calls = [XmlUnlinkNode 0x2000]\<rparr>"

text \<open>A node whose parent field holds the sentinel \<open>(void*)(-1)\<close>.\<close>

definition ex_sentinel :: world where
  "ex_sentinel =
     \<lparr>lib = \<lparr>nodes = [0x2000 \<mapsto> ex_child\<lparr>node_parent := - 1\<rparr>], lastError = None\<rparr>,
      calls = []\<rparr>"

text \<open>An element at 0x1000 with two children, 0x2000 and then 0x3000, in document 0x100.\<close>

definition ex_tree :: world where
  "ex_tree =
     \<lparr>lib = \<lparr>nodes = [0x1000 \<mapsto> ex_parent\<lparr>node_last := 0x3000\<rparr>,
                       0x2000 \<mapsto> ex_child\<lparr>node_next := 0x3000\<rparr>,
                       0x3000 \<mapsto> ex_child\<lparr>node_prev := 0x2000\<rparr>],
             lastError = None\<rparr>,
      calls = []\<rparr>"

text \<open>A behaviour of the library on a few inputs: \<open><r/>\<close> parses to the document 0x100
  with root 0x110; any other buffer is rejected with a fatal error and a message. A
  fragment \<open><b/>\<close> parses to the node 0x3000, a fragment of one blank yields no node and
  no error, any other fragment fails with code 77. Copies are made at 0x4000. The encoder
  escapes \<open><\<close>, \<open>>\<close>, \<open>&\<close>, the double quote and the carriage return, and fails on a null
  input. The serializer writes \<open><r/>\<close> in two chunks, the second one when the context is
  closed; the dump of the document 0x100 is \<open><r/>\<close>. Node structures are not touched.\<close>

definition escape_char :: "char \<Rightarrow> string" where
  "escape_char c =
     (if c = CHR ''<'' then ''&lt;''
      else if c = CHR ''>'' then ''&gt;''
      else if c = CHR ''&'' then ''&amp;''
      else if c = CHR 0x22 then ''&quot;''
      else if c = CHR 0x0D then ''&#13;''
      else [c])"

definition ex_error :: xmlError where
  "ex_error = \<lparr>err_code = 4, err_level = 3, err_message = Some ''Document is empty''\<rparr>"

definition ex_lib :: libxml2 where
  "ex_lib =
     \<lparr>readMemory = (\<lambda>buffer sz url encoding options L.
          if buffer = Some ''<r/>'' then (0x100, L)
          else (NULL, L\<lparr>lastError := Some ex_error\<rparr>)),
      freeDoc = (\<lambda>cur L. L),
      parseInNodeContext = (\<lambda>node data datalen options L.
          if data = Some ''<b/>'' then ((XML_ERR_OK, Some 0x3000), L)
          else if data = Some '' '' then ((XML_ERR_OK, Some NULL), L)
          else ((77, Some NULL), L)),
      docGetRootElement = (\<lambda>d L. if d = 0x100 then 0x110 else NULL),
      docCopyNode = (\<lambda>node d extended L. (0x4000, L)),
      encodeSpecialChars = (\<lambda>d input L.
          case input of None \<Rightarrow> None | Some s \<Rightarrow> Some (concat (map escape_char s))),
      nodeSetContent = (\<lambda>cur content L. L),
      saveToIO = (\<lambda>encoding options L. (0x5000, L)),
      saveTree = (\<lambda>ctxt node L. (([Io_write ''<r'' 2], 0), L)),
      saveClose = (\<lambda>ctxt L. (([Io_write ''/>'' 2, Io_close], 2), L)),
      docDumpFormatMemoryEnc = (\<lambda>d txt_encoding format L.
          if d = 0x100 then ((Some ''<r/>'', 4), L) else ((None, 0), L))\<rparr>"

section \<open>Properties\<close>

subsection \<open>The write callback\<close>

text \<open>
  C8. For every chunk passed to \<open>xml_write_callback\<close>, the chunk is forwarded to the host
  sink (one \<open>xmlNodeWriteCallback\<close> invocation with the same handle, chunk and length, and
  nothing else) if and only if its length, read as a signed int, is strictly positive;
  the callback returns the given length unchanged in every case, and the library's state
  is not touched.
\<close>

theorem xml_write_callback_forwards_nonempty:
  "fst (xml_write_callback ctx buffer len w) = len
   \<and> calls (snd (xml_write_callback ctx buffer len w)) =
       calls w @ (if 0 < sint len then [XmlNodeWriteCallback ctx buffer len] else [])
   \<and> (XmlNodeWriteCallback ctx buffer len
         \<in> set (drop (length (calls w)) (calls (snd (xml_write_callback ctx buffer len w))))
       \<longleftrightarrow> 0 < sint len)
   \<and> lib (snd (xml_write_callback ctx buffer len w)) = lib w"
  by (simp add: xml_write_callback_def xmlNodeWriteCallback_def emit_def word_sless_alt)

subsection \<open>Faults and the heap\<close>

lemma fbind_simps:
  "fbind (Inl e) f = Inl e" "fbind (Inr x) f = f x"
  by (simp_all add: fbind_def)

lemma fbind_Inr_iff: "(fbind m f = Inr y) = (\<exists>x. m = Inr x \<and> f x = Inr y)"
  by (cases m) (simp_all add: fbind_def)

lemma deref_Some: "nodes L p = Some n \<Longrightarrow> deref L p = Inr n"
  by (simp add: deref_def)

lemma deref_Inr_iff: "(deref L p = Inr n) = (nodes L p = Some n)"
  by (simp add: deref_def split: option.splits)

subsection \<open>What xmlUnlinkNode leaves behind\<close>

text \<open>Unlinking a node that has no parent and no siblings changes nothing.\<close>

lemma unlink_detached:
  "nodes L cur = Some c \<Longrightarrow> node_parent c = NULL \<Longrightarrow> node_next c = NULL
   \<Longrightarrow> node_prev c = NULL \<Longrightarrow> xmlUnlinkNode cur L = Inr L"
  by (simp add: xmlUnlinkNode_def unlink_from_parent_def unlink_from_next_def
      unlink_from_prev_def upd_def deref_def fbind_def store_def fun_upd_idem)

text \<open>After an unlink the node's parent is NULL, never the sentinel.\<close>

lemma unlink_leaves_detached:
  assumes "xmlUnlinkNode cur L = Inr L'" and "nodes L cur = Some c"
    and "node_type c \<noteq> XML_NAMESPACE_DECL" and "cur \<noteq> NULL"
  shows "\<exists>c'. nodes L' cur = Some c' \<and> node_parent c' = NULL \<and> node_next c' = NULL
           \<and> node_prev c' = NULL"
  using assms
  by (auto simp: xmlUnlinkNode_def unlink_from_parent_def unlink_from_next_def
      unlink_from_prev_def upd_def deref_def fbind_def store_def Let_def
      split: option.splits sum.splits if_splits)

lemma unlink_skipped:
  assumes "xmlUnlinkNode cur L = Inr L'" and "nodes L cur = Some c"
    and "cur = NULL \<or> node_type c = XML_NAMESPACE_DECL"
  shows "L' = L"
  using assms by (auto simp: xmlUnlinkNode_def deref_Some fbind_simps split: if_splits)

lemma unlink_twice:
  assumes "xmlUnlinkNode cur L = Inr L'" and "nodes L cur = Some c"
  shows "xmlUnlinkNode cur L' = Inr L'"
proof (cases "cur = NULL \<or> node_type c = XML_NAMESPACE_DECL")
  case True
  with assms show ?thesis by (simp add: unlink_skipped [OF assms])
next
  case False
  with unlink_leaves_detached [OF assms] obtain c' where
    "nodes L' cur = Some c'" "node_parent c' = NULL" "node_next c' = NULL" "node_prev c' = NULL"
    by blast
  then show ?thesis by (rule unlink_detached)
qed

lemma unlink_keeps_node:
  assumes "xmlUnlinkNode cur L = Inr L'" and "nodes L cur = Some c"
  shows "\<exists>c'. nodes L' cur = Some c'"
proof (cases "cur = NULL \<or> node_type c = XML_NAMESPACE_DECL")
  case True
  with assms show ?thesis by (simp add: unlink_skipped [OF assms])
next
  case False
  with unlink_leaves_detached [OF assms] show ?thesis by blast
qed

lemma unlink_parent_not_sentinel:
  assumes "xmlUnlinkNode cur L = Inr L'" and "nodes L cur = Some c"
    and "node_parent c \<noteq> - 1" and "nodes L' cur = Some c'"
  shows "node_parent c' \<noteq> - 1"
proof (cases "cur = NULL \<or> node_type c = XML_NAMESPACE_DECL")
  case True
  with assms show ?thesis by (simp add: unlink_skipped [OF assms(1,2)])
next
  case False
  with unlink_leaves_detached [OF assms(1,2)] assms(4) show ?thesis
    by (auto simp: NULL_def)
qed

text \<open>The sentinel is no address of a node: unlinking a node whose parent field holds it
  dereferences it.\<close>

lemma unlink_sentinel_parent_faults:
  assumes "nodes L cur = Some c" and "cur \<noteq> NULL" and "node_type c \<noteq> XML_NAMESPACE_DECL"
    and "node_parent c = - 1" and "nodes L (- 1) = None"
  shows "xmlUnlinkNode cur L = Inl (Invalid_pointer (- 1))"
  using assms
  by (simp add: xmlUnlinkNode_def unlink_from_parent_def upd_def deref_def fbind_def NULL_def)

text \<open>The unlink returns when the node's parent and siblings are null or nodes.\<close>

lemma unlink_from_parent_returns:
  assumes "nodes L cur = Some c"
    and "node_parent c = NULL \<or> nodes L (node_parent c) \<noteq> None"
  shows "\<exists>L1 c1. unlink_from_parent cur L = Inr L1
     \<and> (\<forall>q. nodes L q \<noteq> None \<longrightarrow> nodes L1 q \<noteq> None)
     \<and> nodes L1 cur = Some c1 \<and> node_next c1 = node_next c \<and> node_prev c1 = node_prev c"
proof (cases "node_parent c = NULL")
  case True
  with assms show ?thesis by (simp add: unlink_from_parent_def deref_def fbind_def)
next
  case False
  with assms obtain p where p: "nodes L (node_parent c) = Some p" by auto
  show ?thesis
  proof (cases "node_parent c = cur")
    case True
    with assms p False show ?thesis
      by (simp add: unlink_from_parent_def deref_def fbind_def upd_def store_def Let_def)
  next
    case ne: False
    with assms p False show ?thesis
      by (simp add: unlink_from_parent_def deref_def fbind_def upd_def store_def Let_def)
  qed
qed

lemma unlink_from_next_returns:
  assumes "nodes L cur = Some c"
    and "node_next c = NULL \<or> nodes L (node_next c) \<noteq> None"
  shows "\<exists>L1 c1. unlink_from_next cur L = Inr L1
     \<and> (\<forall>q. nodes L q \<noteq> None \<longrightarrow> nodes L1 q \<noteq> None)
     \<and> nodes L1 cur = Some c1 \<and> node_next c1 = node_next c \<and> node_prev c1 = node_prev c"
proof (cases "node_next c = NULL")
  case True
  with assms show ?thesis by (simp add: unlink_from_next_def deref_def fbind_def)
next
  case False
  with assms obtain p where p: "nodes L (node_next c) = Some p" by auto
  with assms False show ?thesis
    by (cases "node_next c = cur")
       (simp_all add: unlink_from_next_def deref_def fbind_def upd_def store_def)
qed

lemma unlink_from_prev_returns:
  assumes "nodes L cur = Some c"
    and "node_prev c = NULL \<or> nodes L (node_prev c) \<noteq> None"
  shows "\<exists>L1. unlink_from_prev cur L = Inr L1 \<and> nodes L1 cur \<noteq> None"
proof (cases "node_prev c = NULL")
  case True
  with assms show ?thesis by (simp add: unlink_from_prev_def deref_def fbind_def)
next
  case False
  with assms obtain p where p: "nodes L (node_prev c) = Some p" by auto
  with assms False show ?thesis
    by (cases "node_prev c = cur")
       (simp_all add: unlink_from_prev_def deref_def fbind_def upd_def store_def)
qed

lemma xmlUnlinkNode_returns:
  assumes c: "nodes L cur = Some c"
    and p: "node_parent c = NULL \<or> nodes L (node_parent c) \<noteq> None"
    and n: "node_next c = NULL \<or> nodes L (node_next c) \<noteq> None"
    and v: "node_prev c = NULL \<or> nodes L (node_prev c) \<noteq> None"
  shows "\<exists>L'. xmlUnlinkNode cur L = Inr L'"
proof (cases "cur = NULL \<or> node_type c = XML_NAMESPACE_DECL")
  case True
  with c show ?thesis by (auto simp: xmlUnlinkNode_def deref_def fbind_def)
next
  case False
  from unlink_from_parent_returns [OF c p] obtain L1 c1 where
    s1: "unlink_from_parent cur L = Inr L1"
    and d1: "\<forall>q. nodes L q \<noteq> None \<longrightarrow> nodes L1 q \<noteq> None"
    and c1: "nodes L1 cur = Some c1" "node_next c1 = node_next c" "node_prev c1 = node_prev c"
    by blast
  have n1: "node_next c1 = NULL \<or> nodes L1 (node_next c1) \<noteq> None"
    using n d1 c1 by auto
  from unlink_from_next_returns [OF c1(1) n1] obtain L2 c2 where
    s2: "unlink_from_next cur L1 = Inr L2"
    and d2: "\<forall>q. nodes L1 q \<noteq> None \<longrightarrow> nodes L2 q \<noteq> None"
    and c2: "nodes L2 cur = Some c2" "node_next c2 = node_next c1" "node_prev c2 = node_prev c1"
    by blast
  have v2: "node_prev c2 = NULL \<or> nodes L2 (node_prev c2) \<noteq> None"
    using v d1 d2 c1 c2 by auto
  from unlink_from_prev_returns [OF c2(1) v2] obtain L3 c3 where
    s3: "unlink_from_prev cur L2 = Inr L3" and c3: "nodes L3 cur = Some c3"
    by auto
  from False c s1 s2 s3 c3 show ?thesis
    by (simp add: xmlUnlinkNode_def deref_def fbind_def upd_def)
qed

subsection \<open>The guarded unlink\<close>

lemma with_check_cases:
  assumes "nodes (lib w) node = Some n"
  shows "xmlUnlinkNodeWithCheck node w =
     (if node_parent n = - 1 then Inr (0, w)
      else fbind (xmlUnlinkNode node (lib w))
             (\<lambda>L. Inr (1, \<lparr>lib = L, calls = calls w @ [XmlUnlinkNode node]\<rparr>)))"
  using assms
  by (cases "xmlUnlinkNode node (lib w)")
     (simp_all add: xmlUnlinkNodeWithCheck_def deref_Some fbind_simps xmlNodePtrCheck_def
      call_xmlUnlinkNode_def emit_def)

lemma xmlUnlinkNodeWithCheck_attached_returns:
  assumes "nodes (lib w) node = Some n" and "node_parent n \<noteq> - 1"
    and "node_parent n = NULL \<or> nodes (lib w) (node_parent n) \<noteq> None"
    and "node_next n = NULL \<or> nodes (lib w) (node_next n) \<noteq> None"
    and "node_prev n = NULL \<or> nodes (lib w) (node_prev n) \<noteq> None"
  shows "\<exists>w1. xmlUnlinkNodeWithCheck node w = Inr (1, w1)"
  using xmlUnlinkNode_returns [OF assms(1,3,4,5)] with_check_cases [OF assms(1)] assms(2)
  by (auto simp: fbind_simps)

text \<open>
  C10. \<open>xmlNodePtrCheck\<close> returns 0 for the pointer value \<open>(void*)(-1)\<close> and for no other,
  and 1 for every other value, NULL included. So for every node whose parent pointer is
  NULL (what the library's unlink leaves, see \<open>unlink_leaves_detached\<close>),
  \<open>xmlUnlinkNodeWithCheck\<close> calls \<open>xmlUnlinkNode\<close> on it and returns 1 when that call
  returns; it never returns 0.
\<close>

theorem xmlNodePtrCheck_null_parent_attached:
  assumes "nodes (lib w) node = Some n" and "node_parent n = NULL"
  shows "(\<forall>p. (xmlNodePtrCheck p = 0) = (p = - 1))
     \<and> (\<forall>p. (xmlNodePtrCheck p = 1) = (p \<noteq> - 1))
     \<and> xmlNodePtrCheck NULL = 1
     \<and> xmlUnlinkNodeWithCheck node w =
         fbind (xmlUnlinkNode node (lib w))
           (\<lambda>L. Inr (1, \<lparr>lib = L, calls = calls w @ [XmlUnlinkNode node]\<rparr>))
     \<and> (\<forall>w'. xmlUnlinkNodeWithCheck node w \<noteq> Inr (0, w'))"
proof -
  have ne: "node_parent n \<noteq> - 1" using assms(2) by (simp add: NULL_def)
  have eq: "xmlUnlinkNodeWithCheck node w =
         fbind (xmlUnlinkNode node (lib w))
           (\<lambda>L. Inr (1, \<lparr>lib = L, calls = calls w @ [XmlUnlinkNode node]\<rparr>))"
    using with_check_cases [OF assms(1)] ne by simp
  have "\<forall>w'. xmlUnlinkNodeWithCheck node w \<noteq> Inr (0, w')"
    unfolding eq by (cases "xmlUnlinkNode node (lib w)") (simp_all add: fbind_simps)
  with eq show ?thesis by (simp add: xmlNodePtrCheck_def NULL_def)
qed

theorem xmlNodePtrCheck_null_parent_attached_witness:
  "nodes (lib ex_unlinked) 0x2000 = Some (ex_child\<lparr>node_parent := NULL\<rparr>)
   \<and> node_parent (ex_child\<lparr>node_parent := NULL\<rparr>) = NULL
   \<and> xmlUnlinkNodeWithCheck 0x2000 ex_unlinked = Inr (1, emit (XmlUnlinkNode 0x2000) ex_unlinked)"
proof -
  have a: "nodes (lib ex_unlinked) 0x2000 = Some (ex_child\<lparr>node_parent := NULL\<rparr>)"
    by (simp add: ex_unlinked_def)
  have b: "node_parent (ex_child\<lparr>node_parent := NULL\<rparr>) = NULL" by simp
  have u: "xmlUnlinkNode 0x2000 (lib ex_unlinked) = Inr (lib ex_unlinked)"
    by (rule unlink_detached [OF a]) (simp_all add: ex_child_def)
  from xmlNodePtrCheck_null_parent_attached [OF a b] u show ?thesis
    by (simp add: a fbind_simps emit_def ex_unlinked_def)
qed

text \<open>
  C2, as stated, fails: on a parent with one child, the first \<open>xmlUnlinkNodeWithCheck\<close> of
  the child returns 1 and leaves its parent pointer NULL; the second call in a row
  returns 1 again, not 0, and calls \<open>xmlUnlinkNode\<close> a second time.
\<close>

theorem unlink_twice_returns_true_counterexample:
  "xmlUnlinkNodeWithCheck 0x2000 ex_world = Inr (1, ex_unlinked)
   \<and> xmlUnlinkNodeWithCheck 0x2000 ex_unlinked = Inr (1, emit (XmlUnlinkNode 0x2000) ex_unlinked)
   \<and> emit (XmlUnlinkNode 0x2000) ex_unlinked \<noteq> ex_unlinked"
  by (simp add: xmlUnlinkNodeWithCheck_def call_xmlUnlinkNode_def xmlUnlinkNode_def
      unlink_from_parent_def unlink_from_next_def unlink_from_prev_def upd_def deref_def fbind_def
      store_def emit_def xmlNodePtrCheck_def ex_world_def ex_unlinked_def ex_parent_def
      ex_child_def NULL_def Let_def)

text \<open>
  C2, amended. When \<open>xmlUnlinkNodeWithCheck\<close> returns, it has returned 0 exactly when the
  node's parent field is the sentinel \<open>(void*)(-1)\<close>, and then it has changed nothing and
  made no call, and a second call in a row returns 0 again. For every other parent value,
  NULL included, it has called \<open>xmlUnlinkNode\<close> once and returned 1; a second call in a
  row then returns 1 again and calls \<open>xmlUnlinkNode\<close> again, which leaves the node
  structures as they are.
\<close>

theorem unlinkIfAttached_sentinel_guard:
  assumes "xmlUnlinkNodeWithCheck node w = Inr (r1, w1)" and "nodes (lib w) node = Some n"
  shows "(r1 = 0) = (node_parent n = - 1)
     \<and> (r1 = 0 \<longrightarrow> w1 = w \<and> xmlUnlinkNodeWithCheck node w1 = Inr (0, w1))
     \<and> (r1 \<noteq> 0 \<longrightarrow> r1 = 1 \<and> xmlUnlinkNode node (lib w) = Inr (lib w1)
          \<and> calls w1 = calls w @ [XmlUnlinkNode node]
          \<and> xmlUnlinkNodeWithCheck node w1 = Inr (1, emit (XmlUnlinkNode node) w1))"
proof (cases "node_parent n = - 1")
  case True
  with assms with_check_cases [OF assms(2)] show ?thesis by simp
next
  case False
  with assms with_check_cases [OF assms(2)] obtain L where
    L: "xmlUnlinkNode node (lib w) = Inr L" and r1: "r1 = 1"
    and w1: "w1 = \<lparr>lib = L, calls = calls w @ [XmlUnlinkNode node]\<rparr>"
    by (auto simp: fbind_Inr_iff)
  have tw: "xmlUnlinkNode node L = Inr L" by (rule unlink_twice [OF L assms(2)])
  obtain c' where c': "nodes L node = Some c'"
    using unlink_keeps_node [OF L assms(2)] by blast
  have "node_parent c' \<noteq> - 1"
    using unlink_parent_not_sentinel [OF L assms(2) False c'] .
  with with_check_cases [of w1 node c'] c' tw w1 r1 L False show ?thesis
    by (simp add: fbind_simps emit_def)
qed

theorem unlinkIfAttached_sentinel_guard_witness:
  "xmlUnlinkNodeWithCheck 0x2000 ex_sentinel = Inr (0, ex_sentinel)
   \<and> nodes (lib ex_sentinel) 0x2000 = Some (ex_child\<lparr>node_parent := - 1\<rparr>)
   \<and> node_parent (ex_child\<lparr>node_parent := - 1\<rparr>) = - 1"
proof -
  have a: "xmlUnlinkNodeWithCheck 0x2000 ex_sentinel = Inr (0, ex_sentinel)"
    by (simp add: xmlUnlinkNodeWithCheck_def deref_def fbind_def xmlNodePtrCheck_def
        ex_sentinel_def)
  have b: "nodes (lib ex_sentinel) 0x2000 = Some (ex_child\<lparr>node_parent := - 1\<rparr>)"
    by (simp add: ex_sentinel_def)
  from unlinkIfAttached_sentinel_guard [OF a b] a b show ?thesis by simp
qed

subsection \<open>Fragment parsing in a node's context\<close>

lemma xmlParseFragment_run:
  assumes "parseInNodeContext X doc buffer buffer_len options (lib w) = ((errCode, lst), L1)"
  shows "xmlParseFragment X doc buffer buffer_len url options error_buffer error_buffer_len w =
     (if errCode \<noteq> XML_ERR_OK
      then (NULL, error_buffer,
            \<lparr>lib = L1, calls = calls w @ [XmlParseInNodeContext doc buffer buffer_len options,
                                           Printf ''errorcode %d\<newline>'' [errCode]]\<rparr>)
      else (case lst of None \<Rightarrow> NULL | Some p \<Rightarrow> p, error_buffer,
            \<lparr>lib = L1, calls = calls w @ [XmlParseInNodeContext doc buffer buffer_len options]\<rparr>))"
  using assms
  by (simp add: xmlParseFragment_def xmlParseInNodeContext_def printf_def emit_def)

text \<open>
  C7, as stated, fails in the "only if" direction: when the library returns XML_ERR_OK and
  stores no node (here: a fragment of one blank), \<open>xmlParseFragment\<close> returns NULL although
  the result code is OK.
\<close>

theorem xmlParseFragment_null_on_ok_counterexample:
  "fst (xmlParseFragment ex_lib 0x1000 (Some '' '') 1 None 256 (Some ''????'') 4 ex_world) = NULL
   \<and> fst (fst (parseInNodeContext ex_lib 0x1000 (Some '' '') 1 256 (lib ex_world))) = XML_ERR_OK"
  by (simp add: xmlParseFragment_def xmlParseInNodeContext_def ex_lib_def XML_ERR_OK_def)

text \<open>
  C7, amended. Whenever the library's fragment parse returns a non-OK code,
  \<open>xmlParseFragment\<close> returns NULL and only prints the code (\<open>printf\<close> is the one call after
  the parse); on XML_ERR_OK it returns the node the library stored through \<open>lst\<close>, NULL when
  it stored none, and prints nothing. Hence the result is NULL exactly when the code is
  non-OK or no node was stored. In every case the caller's error buffer is returned as
  it was given.
\<close>

theorem xmlParseFragment_result:
  assumes "parseInNodeContext X doc buffer buffer_len options (lib w) = ((errCode, lst), L1)"
    and "xmlParseFragment X doc buffer buffer_len url options error_buffer error_buffer_len w
           = (r, eb, w')"
  shows "(errCode \<noteq> XML_ERR_OK \<longrightarrow> r = NULL
            \<and> calls w' = calls w @ [XmlParseInNodeContext doc buffer buffer_len options,
                                     Printf ''errorcode %d\<newline>'' [errCode]])
     \<and> (errCode = XML_ERR_OK \<longrightarrow> r = (case lst of None \<Rightarrow> NULL | Some p \<Rightarrow> p)
            \<and> calls w' = calls w @ [XmlParseInNodeContext doc buffer buffer_len options])
     \<and> (r = NULL) = (errCode \<noteq> XML_ERR_OK \<or> lst = None \<or> lst = Some NULL)
     \<and> eb = error_buffer
     \<and> lib w' = L1"
  using assms(2) unfolding xmlParseFragment_run [OF assms(1)]
  by (auto split: if_splits option.splits)

theorem xmlParseFragment_result_witness:
  "parseInNodeContext ex_lib 0x1000 (Some ''<b'') 2 0 (lib ex_world)
     = ((77, Some NULL), lib ex_world)
   \<and> xmlParseFragment ex_lib 0x1000 (Some ''<b'') 2 None 0 (Some ''????'') 4 ex_world
       = (NULL, Some ''????'',
          \<lparr>lib = lib ex_world,
           calls = calls ex_world @ [XmlParseInNodeContext 0x1000 (Some ''<b'') 2 0,
                                    Printf ''errorcode %d\<newline>'' [77]]\<rparr>)
   \<and> (77 :: c_int) \<noteq> XML_ERR_OK"
proof -
  have a: "parseInNodeContext ex_lib 0x1000 (Some ''<b'') 2 0 (lib ex_world)
             = ((77, Some NULL), lib ex_world)"
    by (simp add: ex_lib_def)
  have b: "xmlParseFragment ex_lib 0x1000 (Some ''<b'') 2 None 0 (Some ''????'') 4 ex_world
       = (NULL, Some ''????'',
          \<lparr>lib = lib ex_world,
           calls = calls ex_world @ [XmlParseInNodeContext 0x1000 (Some ''<b'') 2 0,
                                    Printf ''errorcode %d\<newline>'' [77]]\<rparr>)"
    by (simp add: xmlParseFragment_run [OF a] XML_ERR_OK_def)
  from xmlParseFragment_result [OF a b] a b show ?thesis by (simp add: XML_ERR_OK_def)
qed

subsection \<open>Fragment parsing through a temporary document\<close>

lemma xmlParseFragmentAsDoc_run:
  assumes "readMemory X buffer buffer_len url encoding options (lib w) = (tmpDoc, L1)"
    and "docCopyNode X (docGetRootElement X tmpDoc L1) doc 1 L1 = (copy, L2)"
  shows "xmlParseFragmentAsDoc X doc buffer buffer_len url encoding options
           error_buffer error_buffer_len w =
     (if tmpDoc = NULL
      then (NULL, error_buffer,
            \<lparr>lib = L1, calls = calls w @ [XmlReadMemory buffer buffer_len url encoding options]\<rparr>)
      else if docGetRootElement X tmpDoc L1 = NULL
      then (NULL, error_buffer,
            \<lparr>lib = L1, calls = calls w @ [XmlReadMemory buffer buffer_len url encoding options,
                                           XmlDocGetRootElement tmpDoc]\<rparr>)
      else (copy, error_buffer,
            \<lparr>lib = freeDoc X tmpDoc L2,
             calls = calls w @ [XmlReadMemory buffer buffer_len url encoding options,
                               XmlDocGetRootElement tmpDoc,
                               XmlDocCopyNode (docGetRootElement X tmpDoc L1) doc 1,
                               XmlFreeDoc tmpDoc]\<rparr>))"
  using assms
  by (simp add: xmlParseFragmentAsDoc_def xmlReadMemory_def xmlDocGetRootElement_def
      xmlDocCopyNode_def xmlFreeDoc_def emit_def)

text \<open>
  C6. For every target document and buffer, \<open>xmlParseFragmentAsDoc\<close> reads the buffer as a
  document of its own (\<open>xmlReadMemory\<close>, the first call). If that yields no document it
  returns NULL at once; if the document has no root element it returns NULL after
  \<open>xmlDocGetRootElement\<close>. Otherwise it calls \<open>xmlDocCopyNode\<close> on the root with the target
  document and \<open>extended = 1\<close> (a deep copy), then \<open>xmlFreeDoc\<close> on the temporary document,
  and returns the copy. An empty buffer is the first or the second case for every
  library that finds no root element in it.
\<close>

theorem xmlParseFragmentAsDoc_copies_root:
  assumes "readMemory X buffer buffer_len url encoding options (lib w) = (tmpDoc, L1)"
    and "docGetRootElement X tmpDoc L1 = tmpRoot"
    and "docCopyNode X tmpRoot doc 1 L1 = (copy, L2)"
    and "xmlParseFragmentAsDoc X doc buffer buffer_len url encoding options
           error_buffer error_buffer_len w = (r, eb, w')"
  shows "(tmpDoc = NULL \<longrightarrow> r = NULL
            \<and> calls w' = calls w @ [XmlReadMemory buffer buffer_len url encoding options])
     \<and> (tmpDoc \<noteq> NULL \<and> tmpRoot = NULL \<longrightarrow> r = NULL
            \<and> calls w' = calls w @ [XmlReadMemory buffer buffer_len url encoding options,
                                     XmlDocGetRootElement tmpDoc])
     \<and> (tmpDoc \<noteq> NULL \<and> tmpRoot \<noteq> NULL \<longrightarrow> r = copy
            \<and> calls w' = calls w @ [XmlReadMemory buffer buffer_len url encoding options,
                                     XmlDocGetRootElement tmpDoc,
                                     XmlDocCopyNode tmpRoot doc 1,
                                     XmlFreeDoc tmpDoc]
            \<and> lib w' = freeDoc X tmpDoc L2)"
  using assms(4) xmlParseFragmentAsDoc_run [OF assms(1), of doc copy L2] assms(2,3)
  by (auto split: if_splits)

theorem xmlParseFragmentAsDoc_copies_root_witness:
  "readMemory ex_lib (Some ''<r/>'') 4 None None 0 (lib ex_world) = (0x100, lib ex_world)
   \<and> docGetRootElement ex_lib 0x100 (lib ex_world) = 0x110
   \<and> docCopyNode ex_lib 0x110 0x900 1 (lib ex_world) = (0x4000, lib ex_world)
   \<and> (0x100 :: ptr) \<noteq> NULL \<and> (0x110 :: ptr) \<noteq> NULL
   \<and> fst (xmlParseFragmentAsDoc ex_lib 0x900 (Some ''<r/>'') 4 None None 0 None 0 ex_world)
       = 0x4000
   \<and> calls (snd (snd
         (xmlParseFragmentAsDoc ex_lib 0x900 (Some ''<r/>'') 4 None None 0 None 0 ex_world)))
       = calls ex_world @ [XmlReadMemory (Some ''<r/>'') 4 None None 0,
                           XmlDocGetRootElement 0x100,
                           XmlDocCopyNode 0x110 0x900 1,
                           XmlFreeDoc 0x100]"
proof -
  have a: "readMemory ex_lib (Some ''<r/>'') 4 None None 0 (lib ex_world) = (0x100, lib ex_world)"
    by (simp add: ex_lib_def)
  have b: "docGetRootElement ex_lib 0x100 (lib ex_world) = 0x110"
    by (simp add: ex_lib_def)
  have c: "docCopyNode ex_lib 0x110 0x900 1 (lib ex_world) = (0x4000, lib ex_world)"
    by (simp add: ex_lib_def)
  obtain r eb w' where
    d: "xmlParseFragmentAsDoc ex_lib 0x900 (Some ''<r/>'') 4 None None 0 None 0 ex_world
          = (r, eb, w')"
    by (metis prod_cases3)
  from xmlParseFragmentAsDoc_copies_root [OF a b c d] d a b c show ?thesis
    by (simp add: NULL_def)
qed

lemma xmlParseFragmentAsDoc_empty_buffer:
  "fst (xmlParseFragmentAsDoc ex_lib 0x900 (Some '''') 0 None None 0 None 0 ex_world) = NULL"
  by (simp add: xmlParseFragmentAsDoc_def xmlReadMemory_def ex_lib_def)

subsection \<open>Parsing a buffer and reporting the error\<close>

lemma size_t_of_minus_1: "size_t_of_int (- 1) = 2 ^ 64 - 1"
  by (simp add: size_t_of_int_def scast_n1 unsigned_minus_1_eq_mask mask_eq_exp_minus_1)

lemma int_pred_0: "int_pred 0 = Inr (- 1)"
  by (simp add: int_pred_def)

lemma sint_pred: "1 \<le> sint (x :: c_int) \<Longrightarrow> sint (x - 1) = sint x - 1"
proof -
  assume a: "1 \<le> sint x"
  have "sint x < 2 ^ 31" using sint_lt [of x] by simp
  with a show ?thesis
    by (simp add: sint_word_ariths signed_take_bit_int_eq_self)
qed

lemma size_t_of_nonneg: "0 \<le> sint (m :: c_int) \<Longrightarrow> size_t_of_int m = nat (sint m)"
proof -
  assume a: "0 \<le> sint m"
  have "sint m < 2 ^ 31" using sint_lt [of m] by simp
  also have "(2::int) ^ 31 < 2 ^ 64" by simp
  finally have b: "sint m < 2 ^ 64" .
  have "uint (scast m :: 64 word) = take_bit 64 (sint m)"
    by (simp only: scast_eq uint_word_of_int_eq) simp
  also have "\<dots> = sint m"
    using a b by (rule take_bit_int_eq_self)
  finally show ?thesis
    by (simp only: size_t_of_int_def unat_eq_nat_uint)
qed

text \<open>The calls of \<open>xmlParse\<close>, in order, for whatever the library's parser returns.\<close>

lemma xmlParse_run:
  assumes "readMemory X buffer buffer_len url encoding options ((lib w)\<lparr>lastError := None\<rparr>)
             = (doc, L1)"
  shows "xmlParse X buffer buffer_len url encoding options error_buffer error_buffer_len w =
     (if doc \<noteq> NULL
      then Inr (doc, error_buffer,
                w\<lparr>lib := L1,
                  calls := calls w @ [XmlResetLastError,
                                     XmlReadMemory buffer buffer_len url encoding options]\<rparr>)
      else
        (let w4 = w\<lparr>lib := freeDoc X NULL L1,
                    calls := calls w @ [XmlResetLastError,
                                       XmlReadMemory buffer buffer_len url encoding options,
                                       XmlFreeDoc NULL, XmlGetLastError]\<rparr>
         in case lastError (freeDoc X NULL L1) of
              None \<Rightarrow> Inr (NULL, error_buffer, w4)
            | Some e \<Rightarrow>
                (case error_buffer of
                   None \<Rightarrow> Inr (NULL, error_buffer, w4)
                 | Some b \<Rightarrow>
                     if 2 \<le> sint (err_level e)
                     then
                       (case err_message e of
                          Some msg \<Rightarrow>
                            fbind (int_pred error_buffer_len) (\<lambda>m.
                            fbind (strncpy b msg (size_t_of_int m)) (\<lambda>b1.
                            fbind (store_char b1 (sint m) NUL) (\<lambda>b2.
                              Inr (NULL, Some b2, w4))))
                        | None \<Rightarrow> Inr (NULL, error_buffer, w4))
                     else Inr (NULL, error_buffer, w4))))"
  using assms
  by (simp add: xmlParse_def xmlResetLastError_def xmlReadMemory_def xmlFreeDoc_def
      xmlGetLastError_def emit_def Let_def XML_ERR_ERROR_def word_sle_eq
      split: option.splits)

text \<open>With a capacity of at least 1 that does not exceed the array, the three statements
  that copy the message write the first \<open>capacity - 1\<close> characters of the message, NUL
  padding up to \<open>capacity - 1\<close>, and a NUL at index \<open>capacity - 1\<close>; the array beyond the
  capacity keeps its content.\<close>

lemma copy_message:
  assumes "1 \<le> sint cap" and "nat (sint cap) \<le> length b"
  shows "fbind (int_pred cap) (\<lambda>m.
         fbind (strncpy b msg (size_t_of_int m)) (\<lambda>b1.
         fbind (store_char b1 (sint m) NUL) (\<lambda>b2. Inr (f b2))))
       = Inr (f (take (nat (sint cap) - 1) (c_str msg @ replicate (nat (sint cap) - 1) NUL)
                 @ NUL # drop (nat (sint cap)) b))"
proof -
  define n where "n = nat (sint cap) - 1"
  define pre where "pre = take n (c_str msg @ replicate n NUL)"
  have p: "int_pred cap = Inr (cap - 1)" using assms(1) by (simp add: int_pred_def)
  have s: "sint (cap - 1) = sint cap - 1" using assms(1) by (rule sint_pred)
  have z: "size_t_of_int (cap - 1) = n"
    using size_t_of_nonneg [of "cap - 1"] s assms(1) by (simp add: n_def nat_diff_distrib)
  have n: "n < length b" unfolding n_def using assms by linarith
  have sn: "Suc n = nat (sint cap)" unfolding n_def using assms(1) by linarith
  have c: "strncpy b msg n = Inr (pre @ drop n b)"
    using n by (simp add: strncpy_def pre_def)
  have l: "length pre = n" by (simp add: pre_def)
  have d: "drop n b = b ! n # drop (nat (sint cap)) b"
    using Cons_nth_drop_Suc [OF n] sn by simp
  have i: "nat (sint (cap - 1)) = n" "0 \<le> sint (cap - 1)"
    using s assms(1) by (simp_all add: n_def nat_diff_distrib)
  have le: "n < length (pre @ drop n b)" using l n by simp
  have up: "(pre @ drop n b)[n := NUL] = pre @ NUL # drop (nat (sint cap)) b"
    using l by (simp add: list_update_append d)
  have u: "store_char (pre @ drop n b) (sint (cap - 1)) NUL
         = Inr (pre @ NUL # drop (nat (sint cap)) b)"
    unfolding store_char_def i using i(2) le up by simp
  show ?thesis
    unfolding p fbind_simps z c u by (simp add: pre_def n_def)
qed

text \<open>What \<open>xmlParse\<close> does for a capacity of at least 1 within the array: it returns; its
  first two calls are \<open>xmlResetLastError\<close> and \<open>xmlReadMemory\<close>, and the parser runs on a
  state without last error; it calls \<open>xmlGetLastError\<close> exactly when the document is NULL;
  and the error buffer changes only when the document is NULL, there is a last error of
  level XML_ERR_ERROR or above with a message, and the buffer is not NULL.\<close>

lemma xmlParse_error_contract:
  assumes rd: "readMemory X buffer buffer_len url encoding options
                 ((lib w)\<lparr>lastError := None\<rparr>) = (doc, L1)"
    and cap: "\<forall>b. error_buffer = Some b \<longrightarrow>
                1 \<le> sint error_buffer_len \<and> nat (sint error_buffer_len) \<le> length b"
  shows "\<exists>eb w'.
       xmlParse X buffer buffer_len url encoding options error_buffer error_buffer_len w
         = Inr (doc, eb, w')
     \<and> take 2 (drop (length (calls w)) (calls w'))
         = [XmlResetLastError, XmlReadMemory buffer buffer_len url encoding options]
     \<and> (XmlGetLastError \<in> set (drop (length (calls w)) (calls w'))) = (doc = NULL)
     \<and> eb =
         (if doc = NULL
          then (case lastError (freeDoc X NULL L1) of
                  None \<Rightarrow> error_buffer
                | Some e \<Rightarrow>
                    (case error_buffer of
                       None \<Rightarrow> None
                     | Some b \<Rightarrow>
                         if 2 \<le> sint (err_level e)
                         then (case err_message e of
                                 None \<Rightarrow> error_buffer
                               | Some msg \<Rightarrow>
                                   Some (take (nat (sint error_buffer_len) - 1)
                                           (c_str msg
                                            @ replicate (nat (sint error_buffer_len) - 1) NUL)
                                         @ NUL # drop (nat (sint error_buffer_len)) b))
                         else error_buffer))
          else error_buffer)"
proof (cases "doc = NULL")
  case False
  then show ?thesis by (simp add: xmlParse_run [OF rd])
next
  case True
  show ?thesis
  proof (cases "lastError (freeDoc X NULL L1)")
    case None
    with True show ?thesis by (simp add: xmlParse_run [OF rd])
  next
    case (Some e)
    show ?thesis
    proof (cases error_buffer)
      case None
      with True Some show ?thesis by (simp add: xmlParse_run [OF rd])
    next
      case b: (Some b)
      with cap have c: "1 \<le> sint error_buffer_len" "nat (sint error_buffer_len) \<le> length b"
        by simp_all
      show ?thesis
      proof (cases "err_message e")
        case None
        with True Some b show ?thesis by (simp add: xmlParse_run [OF rd])
      next
        case m: (Some msg)
        with True Some b show ?thesis
          by (simp add: xmlParse_run [OF rd] copy_message [OF c])
      qed
    qed
  qed
qed

text \<open>
  C1. The claim: on every parse call, \<open>xmlParse\<close> resets the last error before parsing,
  reads it exactly when the document is NULL, and writes into the error buffer exactly
  when there is an error of level XML_ERR_ERROR or above with a message and the buffer is
  not NULL, and then at most \<open>capacity - 1\<close> characters of the message and a terminator.
  For every capacity of at least 1 within the buffer this is \<open>xmlParse_error_contract\<close>.
  It does not hold on every call: the copy is not guarded by \<open>error_buffer_len > 0\<close>, the
  test that \<open>xmlParseFragment\<close> makes for its error buffer. With a non-null buffer and
  capacity 0, on a parse that fails with a fatal error and a message, \<open>strncpy\<close> is called
  with the length \<open>(size_t)(0 - 1) = 2^64 - 1\<close> and writes past the end of the buffer:
  undefined behaviour.
\<close>

theorem xmlParse_zero_capacity_overflow:
  "xmlParse ex_lib (Some ''<r'') 2 None None 0 (Some ''????'') 0 ex_world = Inl Out_of_bounds"
proof -
  have rd: "readMemory ex_lib (Some ''<r'') 2 None None 0 ((lib ex_world)\<lparr>lastError := None\<rparr>)
              = (NULL, (lib ex_world)\<lparr>lastError := Some ex_error\<rparr>)"
    by (simp add: ex_lib_def)
  have fd: "freeDoc ex_lib NULL ((lib ex_world)\<lparr>lastError := Some ex_error\<rparr>)
              = (lib ex_world)\<lparr>lastError := Some ex_error\<rparr>"
    by (simp add: ex_lib_def)
  show ?thesis
    unfolding xmlParse_run [OF rd] fd
    by (simp add: ex_error_def int_pred_0 size_t_of_minus_1 fbind_simps strncpy_def)
qed

text \<open>The same failing parse with capacity 4: three characters of the message and the
  terminator.\<close>

lemma xmlParse_capacity_4:
  "\<exists>w'. xmlParse ex_lib (Some ''<r'') 2 None None 0 (Some ''????????'') 4 ex_world
          = Inr (NULL, Some (''Doc'' @ NUL # ''????''), w')"
proof -
  have rd: "readMemory ex_lib (Some ''<r'') 2 None None 0 ((lib ex_world)\<lparr>lastError := None\<rparr>)
              = (NULL, (lib ex_world)\<lparr>lastError := Some ex_error\<rparr>)"
    by (simp add: ex_lib_def)
  have fd: "freeDoc ex_lib NULL ((lib ex_world)\<lparr>lastError := Some ex_error\<rparr>)
              = (lib ex_world)\<lparr>lastError := Some ex_error\<rparr>"
    by (simp add: ex_lib_def)
  have cap: "\<forall>b. Some ''????????'' = Some b \<longrightarrow> 1 \<le> sint (4 :: c_int) \<and> nat (sint (4 :: c_int)) \<le> length b"
    by simp
  from xmlParse_error_contract [OF rd cap, unfolded fd] show ?thesis
    by (auto simp: ex_error_def c_str_def NUL_def)
qed

subsection \<open>Replacing a node's content\<close>

text \<open>Unlinking the first child of a node: the parent's \<open>children\<close> moves on to the next
  sibling, its \<open>last\<close> is cleared if the child was also the last one, the next sibling
  loses its \<open>prev\<close>, the child ends up detached, and no other node changes.\<close>

lemma unlink_first_child:
  assumes n: "nodes L n = Some nd" and c: "nodes L c = Some cn"
    and ne: "n \<noteq> NULL" "c \<noteq> NULL" "c \<noteq> n"
    and cn: "node_parent cn = n" "node_prev cn = NULL"
      "node_type cn \<noteq> XML_ATTRIBUTE_NODE" "node_type cn \<noteq> XML_NAMESPACE_DECL"
    and nd: "node_children nd = c"
    and nx: "node_next cn = NULL \<or>
             (\<exists>pn. nodes L (node_next cn) = Some pn) \<and> node_next cn \<noteq> c \<and> node_next cn \<noteq> n"
  shows "\<exists>L1. xmlUnlinkNode c L = Inr L1
     \<and> nodes L1 n = Some (nd\<lparr>node_children := node_next cn,
                             node_last := (if node_last nd = c then NULL else node_last nd)\<rparr>)
     \<and> nodes L1 c = Some (cn\<lparr>node_parent := NULL, node_next := NULL, node_prev := NULL\<rparr>)
     \<and> (node_next cn \<noteq> NULL \<longrightarrow>
          nodes L1 (node_next cn) = map_option (\<lambda>pn. pn\<lparr>node_prev := NULL\<rparr>) (nodes L (node_next cn)))
     \<and> (\<forall>x. x \<noteq> n \<and> x \<noteq> c \<and> (node_next cn = NULL \<or> x \<noteq> node_next cn)
            \<longrightarrow> nodes L1 x = nodes L x)
     \<and> lastError L1 = lastError L"
proof (cases "node_next cn = NULL")
  case True
  with assms show ?thesis
    by (simp add: xmlUnlinkNode_def unlink_from_parent_def unlink_from_next_def
        unlink_from_prev_def upd_def deref_def fbind_def store_def Let_def)
next
  case False
  with nx obtain pn where pn: "nodes L (node_next cn) = Some pn"
    and d: "node_next cn \<noteq> c" "node_next cn \<noteq> n" by blast
  with assms False show ?thesis
    by (simp add: xmlUnlinkNode_def unlink_from_parent_def unlink_from_next_def
        unlink_from_prev_def upd_def deref_def fbind_def store_def Let_def)
qed


lemma sibling_chain_cong:
  "(\<forall>x\<in>set cs. nodes L' x = nodes L x)
   \<Longrightarrow> sibling_chain L' par prv p cs = sibling_chain L par prv p cs"
  by (induction cs arbitrary: prv p) (auto split: option.splits)

lemma unlink_children_step:
  assumes "child \<noteq> NULL" and "nodes (lib w) child = Some c"
    and "xmlUnlinkNode child (lib w) = Inr L1"
  shows "unlink_children gonode child w =
         unlink_children gonode (node_next c)
           (w\<lparr>lib := L1, calls := calls w @ [XmlUnlinkNode child,
                                               XmlUnlinkNodeCallback child gonode]\<rparr>)"
  using assms
  by (subst unlink_children.simps)
     (simp add: deref_def call_xmlUnlinkNode_def fbind_def xmlUnlinkNodeCallback_def emit_def)

lemma unlink_children_chain:
  assumes "nodes (lib w) n = Some nd" and "n \<noteq> NULL" and "n \<notin> set cs" and "distinct cs"
    and "sibling_chain (lib w) n NULL (node_children nd) cs"
    and "node_last nd = (if cs = [] then NULL else last cs)"
  shows "\<exists>w'. unlink_children gonode (node_children nd) w = Some (Inr w')
     \<and> calls w' = calls w @ removal_calls gonode cs
     \<and> nodes (lib w') n = Some (nd\<lparr>node_children := NULL, node_last := NULL\<rparr>)
     \<and> (\<forall>c\<in>set cs. detached (lib w') c)
     \<and> (\<forall>x. x \<noteq> n \<and> x \<notin> set cs \<longrightarrow> nodes (lib w') x = nodes (lib w) x)
     \<and> lastError (lib w') = lastError (lib w)"
  using assms
proof (induction cs arbitrary: w nd)
  case Nil
  then have "node_children nd = NULL" "node_last nd = NULL" by simp_all
  then have "nd\<lparr>node_children := NULL, node_last := NULL\<rparr> = nd" by simp
  with Nil \<open>node_children nd = NULL\<close> show ?case
    by (subst unlink_children.simps) (simp add: removal_calls_def)
next
  case (Cons c cs)
  let ?L = "lib w"
  from Cons.prems(5) obtain cn where
    p: "node_children nd = c" and c0: "c \<noteq> NULL" and cn: "nodes ?L c = Some cn"
    and par: "node_parent cn = n" and prv: "node_prev cn = NULL"
    and ty: "node_type cn \<noteq> XML_ATTRIBUTE_NODE" "node_type cn \<noteq> XML_NAMESPACE_DECL"
    and rest: "sibling_chain ?L n c (node_next cn) cs"
    by (auto split: option.splits)
  from Cons.prems(3) have cn_ne: "c \<noteq> n" by auto
  from Cons.prems(3) have n_cs: "n \<notin> set cs" by auto
  from Cons.prems(4) have c_cs: "c \<notin> set cs" and dist: "distinct cs" by auto
  have nx: "node_next cn = NULL \<or>
            (\<exists>pn. nodes ?L (node_next cn) = Some pn) \<and> node_next cn \<noteq> c \<and> node_next cn \<noteq> n"
  proof (cases cs)
    case Nil
    with rest show ?thesis by simp
  next
    case (Cons c2 cs2)
    with rest c_cs n_cs show ?thesis by (auto split: option.splits)
  qed
  from unlink_first_child [OF Cons.prems(1) cn Cons.prems(2) c0 cn_ne par prv ty p nx]
  obtain L1 where
    u: "xmlUnlinkNode c ?L = Inr L1"
    and n1: "nodes L1 n = Some (nd\<lparr>node_children := node_next cn,
                             node_last := (if node_last nd = c then NULL else node_last nd)\<rparr>)"
    and c1: "nodes L1 c = Some (cn\<lparr>node_parent := NULL, node_next := NULL, node_prev := NULL\<rparr>)"
    and x1: "node_next cn \<noteq> NULL \<longrightarrow>
          nodes L1 (node_next cn) = map_option (\<lambda>pn. pn\<lparr>node_prev := NULL\<rparr>) (nodes ?L (node_next cn))"
    and fr: "\<forall>x. x \<noteq> n \<and> x \<noteq> c \<and> (node_next cn = NULL \<or> x \<noteq> node_next cn)
               \<longrightarrow> nodes L1 x = nodes ?L x"
    and le: "lastError L1 = lastError ?L"
    by blast
  define w2 where "w2 = w\<lparr>lib := L1, calls := calls w @ [XmlUnlinkNode c,
                                               XmlUnlinkNodeCallback c gonode]\<rparr>"
  define nd1 where "nd1 = nd\<lparr>node_children := node_next cn,
                             node_last := (if node_last nd = c then NULL else node_last nd)\<rparr>"
  have step: "unlink_children gonode c w = unlink_children gonode (node_next cn) w2"
    unfolding w2_def by (rule unlink_children_step [OF c0 cn u])
  have lw2: "lib w2 = L1" "calls w2 = calls w @ [XmlUnlinkNode c, XmlUnlinkNodeCallback c gonode]"
    by (simp_all add: w2_def)
  have a1: "nodes (lib w2) n = Some nd1" by (simp add: lw2 n1 nd1_def)
  have ch1: "node_children nd1 = node_next cn" by (simp add: nd1_def)
  have a5: "sibling_chain (lib w2) n NULL (node_children nd1) cs"
  proof (cases cs)
    case Nil
    with rest show ?thesis by (simp add: ch1)
  next
    case (Cons c2 cs2)
    with rest obtain pn where c2: "node_next cn = c2" "c2 \<noteq> NULL" "nodes ?L c2 = Some pn"
      and pn: "node_parent pn = n" "node_type pn \<noteq> XML_ATTRIBUTE_NODE"
        "node_type pn \<noteq> XML_NAMESPACE_DECL"
      and r2: "sibling_chain ?L n c2 (node_next pn) cs2"
      by (auto split: option.splits)
    from Cons dist c_cs n_cs have "\<forall>x\<in>set cs2. x \<noteq> n \<and> x \<noteq> c \<and> x \<noteq> c2" by auto
    with fr c2 have "\<forall>x\<in>set cs2. nodes L1 x = nodes ?L x" by auto
    then have "sibling_chain L1 n c2 (node_next pn) cs2 = sibling_chain ?L n c2 (node_next pn) cs2"
      by (rule sibling_chain_cong)
    with r2 x1 c2 pn Cons show ?thesis by (simp add: lw2 ch1)
  qed
  have a6: "node_last nd1 = (if cs = [] then NULL else last cs)"
  proof (cases cs)
    case Nil
    with Cons.prems(6) show ?thesis by (simp add: nd1_def)
  next
    case (Cons c2 cs2)
    with c_cs have "last cs \<noteq> c" by (metis last_in_set list.distinct(1))
    with Cons Cons.prems(6) show ?thesis by (simp add: nd1_def)
  qed
  from Cons.IH [OF a1 Cons.prems(2) n_cs dist a5 a6] obtain w' where
    r: "unlink_children gonode (node_children nd1) w2 = Some (Inr w')"
    and rc: "calls w' = calls w2 @ removal_calls gonode cs"
    and rn: "nodes (lib w') n = Some (nd1\<lparr>node_children := NULL, node_last := NULL\<rparr>)"
    and rd: "\<forall>c\<in>set cs. detached (lib w') c"
    and rf: "\<forall>x. x \<noteq> n \<and> x \<notin> set cs \<longrightarrow> nodes (lib w') x = nodes (lib w2) x"
    and rl: "lastError (lib w') = lastError (lib w2)"
    by blast
  have "unlink_children gonode (node_children nd) w = Some (Inr w')"
    using r step p ch1 by simp
  moreover have "calls w' = calls w @ removal_calls gonode (c # cs)"
    using rc lw2 by (simp add: removal_calls_def)
  moreover have "nodes (lib w') n = Some (nd\<lparr>node_children := NULL, node_last := NULL\<rparr>)"
    using rn by (simp add: nd1_def)
  moreover have "\<forall>x\<in>set (c # cs). detached (lib w') x"
  proof -
    have "nodes (lib w') c = nodes L1 c" using rf cn_ne c_cs lw2 by simp
    then have "detached (lib w') c" by (simp add: detached_def c1)
    with rd show ?thesis by simp
  qed
  moreover have "\<forall>x. x \<noteq> n \<and> x \<notin> set (c # cs) \<longrightarrow> nodes (lib w') x = nodes (lib w) x"
  proof (intro allI impI)
    fix x assume x: "x \<noteq> n \<and> x \<notin> set (c # cs)"
    then have "nodes (lib w') x = nodes L1 x" using rf lw2 by simp
    moreover have "node_next cn = NULL \<or> x \<noteq> node_next cn"
    proof (cases cs)
      case Nil
      with rest show ?thesis by simp
    next
      case (Cons c2 cs2)
      with rest have "node_next cn = c2" by (auto split: option.splits)
      with Cons x show ?thesis by auto
    qed
    ultimately show "nodes (lib w') x = nodes (lib w) x" using fr x by simp
  qed
  moreover have "lastError (lib w') = lastError (lib w)" using rl le lw2 by simp
  ultimately show ?case by blast
qed

text \<open>
  C3. For every node and content string, if the encoder returns NULL for the content in
  the node's document, \<open>xmlSetContent\<close> returns normally having made that one call and no
  other: no \<open>xmlUnlinkNode\<close>, no removal callback, no \<open>xmlNodeSetContent\<close>. The library's
  state, and so every node structure in it, is what it was; nothing tells the caller
  that the content was not set (the C function returns \<open>void\<close>).
\<close>

theorem xmlSetContent_encoding_failure:
  assumes "nodes (lib w) n = Some node"
    and "encodeSpecialChars X (node_doc node) content (lib w) = None"
  shows "\<exists>w'. xmlSetContent X gonode n content w = Some (Inr w')
     \<and> lib w' = lib w
     \<and> calls w' = calls w @ [XmlEncodeSpecialChars (node_doc node) content]"
  using assms
  by (simp add: xmlSetContent_def deref_def xmlEncodeSpecialChars_def emit_def)

theorem xmlSetContent_encoding_failure_witness:
  "nodes (lib ex_tree) 0x1000 = Some (ex_parent\<lparr>node_last := 0x3000\<rparr>)
   \<and> encodeSpecialChars ex_lib (node_doc (ex_parent\<lparr>node_last := 0x3000\<rparr>)) None (lib ex_tree)
       = None
   \<and> (\<exists>w'. xmlSetContent ex_lib 0x77 0x1000 None ex_tree = Some (Inr w')
          \<and> lib w' = lib ex_tree
          \<and> calls w' = [XmlEncodeSpecialChars 0x100 None])"
proof -
  have a: "nodes (lib ex_tree) 0x1000 = Some (ex_parent\<lparr>node_last := 0x3000\<rparr>)"
    by (simp add: ex_tree_def)
  have b: "encodeSpecialChars ex_lib (node_doc (ex_parent\<lparr>node_last := 0x3000\<rparr>)) None
             (lib ex_tree) = None"
    by (simp add: ex_lib_def)
  have c: "calls ex_tree = []" "node_doc (ex_parent\<lparr>node_last := 0x3000\<rparr>) = 0x100"
    by (simp_all add: ex_tree_def ex_parent_def)
  from xmlSetContent_encoding_failure [OF a b, of "0x77"] a b show ?thesis
    by (simp add: c)
qed

text \<open>
  C4. For every node whose children are the chain \<open>cs\<close>, and every content string that
  the encoder turns into \<open>enc\<close>, \<open>xmlSetContent\<close> returns normally, and its calls after
  the encoder are, for each child in document order, \<open>xmlUnlinkNode\<close> of the child and
  then one \<open>xmlUnlinkNodeCallback\<close> with the child and the host handle, and no call that
  frees a child; then \<open>xmlNodeSetContent\<close> of the node with \<open>enc\<close>, the encoder's output for
  the input; then \<open>xmlFree\<close> of \<open>enc\<close>. The state in which the content is set has the node
  with no child (\<open>children\<close> and \<open>last\<close> are NULL), every former child detached, and every
  other node as before.
\<close>

theorem xmlSetContent_replaces_children:
  assumes "has_children (lib w) n cs"
    and "nodes (lib w) n = Some node"
    and "encodeSpecialChars X (node_doc node) content (lib w) = Some enc"
  shows "\<exists>w' L2. xmlSetContent X gonode n content w = Some (Inr w')
     \<and> calls w' = calls w @ [XmlEncodeSpecialChars (node_doc node) content]
                   @ removal_calls gonode cs
                   @ [XmlNodeSetContent n enc, XmlFree enc]
     \<and> lib w' = nodeSetContent X n enc L2
     \<and> has_children L2 n []
     \<and> (\<forall>c\<in>set cs. detached L2 c)
     \<and> (\<forall>x. x \<noteq> n \<and> x \<notin> set cs \<longrightarrow> nodes L2 x = nodes (lib w) x)"
proof -
  define w1 where "w1 = w\<lparr>calls := calls w @ [XmlEncodeSpecialChars (node_doc node) content]\<rparr>"
  have l1: "lib w1 = lib w" "calls w1 = calls w @ [XmlEncodeSpecialChars (node_doc node) content]"
    by (simp_all add: w1_def)
  from assms(1,2) have wf: "n \<noteq> NULL" "n \<notin> set cs" "distinct cs"
    "sibling_chain (lib w1) n NULL (node_children node) cs"
    "node_last node = (if cs = [] then NULL else last cs)"
    by (simp_all add: has_children_def l1)
  have nn: "nodes (lib w1) n = Some node" using assms(2) by (simp add: l1)
  from unlink_children_chain [OF nn wf, of gonode] obtain w2 where
    r: "unlink_children gonode (node_children node) w1 = Some (Inr w2)"
    and rc: "calls w2 = calls w1 @ removal_calls gonode cs"
    and rn: "nodes (lib w2) n = Some (node\<lparr>node_children := NULL, node_last := NULL\<rparr>)"
    and rd: "\<forall>c\<in>set cs. detached (lib w2) c"
    and rf: "\<forall>x. x \<noteq> n \<and> x \<notin> set cs \<longrightarrow> nodes (lib w2) x = nodes (lib w1) x"
    by blast
  have run: "xmlSetContent X gonode n content w =
               Some (Inr (xmlFree enc (xmlNodeSetContent X n enc w2)))"
    using assms(2,3) r
    by (simp add: xmlSetContent_def deref_def xmlEncodeSpecialChars_def emit_def w1_def)
  have "calls (xmlFree enc (xmlNodeSetContent X n enc w2)) =
          calls w @ [XmlEncodeSpecialChars (node_doc node) content]
          @ removal_calls gonode cs @ [XmlNodeSetContent n enc, XmlFree enc]"
    by (simp add: xmlFree_def xmlNodeSetContent_def emit_def rc l1)
  moreover have "lib (xmlFree enc (xmlNodeSetContent X n enc w2)) = nodeSetContent X n enc (lib w2)"
    by (simp add: xmlFree_def xmlNodeSetContent_def emit_def)
  moreover have "has_children (lib w2) n []"
    using rn wf(1) by (simp add: has_children_def)
  moreover have "\<forall>x. x \<noteq> n \<and> x \<notin> set cs \<longrightarrow> nodes (lib w2) x = nodes (lib w) x"
    using rf by (simp add: l1)
  ultimately show ?thesis using run rd by blast
qed

theorem xmlSetContent_replaces_children_witness:
  "has_children (lib ex_tree) 0x1000 [0x2000, 0x3000]
   \<and> nodes (lib ex_tree) 0x1000 = Some (ex_parent\<lparr>node_last := 0x3000\<rparr>)
   \<and> encodeSpecialChars ex_lib (node_doc (ex_parent\<lparr>node_last := 0x3000\<rparr>)) (Some ''<a>'')
        (lib ex_tree) = Some ''&lt;a&gt;''
   \<and> (\<exists>w'. xmlSetContent ex_lib 0x77 0x1000 (Some ''<a>'') ex_tree = Some (Inr w')
          \<and> calls w' = [XmlEncodeSpecialChars 0x100 (Some ''<a>''),
                         XmlUnlinkNode 0x2000, XmlUnlinkNodeCallback 0x2000 0x77,
                         XmlUnlinkNode 0x3000, XmlUnlinkNodeCallback 0x3000 0x77,
                         XmlNodeSetContent 0x1000 ''&lt;a&gt;'', XmlFree ''&lt;a&gt;''])"
proof -
  have a: "has_children (lib ex_tree) 0x1000 [0x2000, 0x3000]"
    by (simp add: has_children_def ex_tree_def ex_parent_def ex_child_def NULL_def)
  have b: "nodes (lib ex_tree) 0x1000 = Some (ex_parent\<lparr>node_last := 0x3000\<rparr>)"
    by (simp add: ex_tree_def)
  have c: "encodeSpecialChars ex_lib (node_doc (ex_parent\<lparr>node_last := 0x3000\<rparr>))
             (Some ''<a>'') (lib ex_tree) = Some ''&lt;a&gt;''"
    by (simp add: ex_lib_def escape_char_def)
  have d: "calls ex_tree = []" "node_doc (ex_parent\<lparr>node_last := 0x3000\<rparr>) = 0x100"
    by (simp_all add: ex_tree_def ex_parent_def)
  from xmlSetContent_replaces_children [OF a b c, of "0x77"] a b c show ?thesis
    by (auto simp: d removal_calls_def)
qed

subsection \<open>Saving a subtree through the host's sink\<close>

lemma run_io_calls:
  "calls (foldl (run_io ioctx) w qs) = calls w @ io_events ioctx qs"
  "lib (foldl (run_io ioctx) w qs) = lib w"
  by (induction qs arbitrary: w)
     (auto simp: io_events_def run_io_def xml_write_callback_def xmlNodeWriteCallback_def
       close_callback_def emit_def word_sless_alt split: io_request.splits)

lemma io_events_no_save_close: "filter is_XmlSaveClose (io_events ioctx qs) = []"
  by (induction qs) (auto simp: io_events_def split: io_request.splits)

lemma io_events_append: "io_events ioctx (qs @ rs) = io_events ioctx qs @ io_events ioctx rs"
  by (simp add: io_events_def)

lemma io_events_no_close:
  "Io_close \<notin> set qs \<Longrightarrow> filter is_Close_callback (io_events ioctx qs) = []"
  by (induction qs) (auto simp: io_events_def split: io_request.splits)

lemma xmlSaveNode_run:
  assumes "saveToIO X encoding options (lib w) = (ctx, L1)"
    and "saveTree X ctx node L1 = ((qs1, r1), L2)"
    and "saveClose X ctx L2 = ((qs2, r2), L3)"
  shows "xmlSaveNode X wbuffer node encoding options w =
     (r2, \<lparr>lib = L3,
           calls = calls w @ [XmlSaveToIO wbuffer encoding options, XmlSaveTree ctx node]
                   @ io_events wbuffer qs1 @ [XmlSaveClose ctx] @ io_events wbuffer qs2\<rparr>)"
  using assms
  by (simp add: xmlSaveNode_def xmlSaveToIO_def xmlSaveTree_def xmlSaveClose_def emit_def
      run_io_calls world.equality)

text \<open>
  C5. For every invocation of \<open>xmlSaveNode\<close>, whatever context \<open>xmlSaveToIO\<close> returns and
  whatever \<open>xmlSaveTree\<close> writes and returns (nothing at all, or a failure code
  included): the calls are \<open>xmlSaveToIO\<close>, \<open>xmlSaveTree\<close> with the callbacks it triggers,
  and then \<open>xmlSaveClose\<close> on the same context with the callbacks it triggers; there is
  exactly one call of \<open>xmlSaveClose\<close>; and the value returned is the result of
  \<open>xmlSaveClose\<close>. When the library drives the sink in the usual way (only writes while
  serializing; on closing, the pending writes and then the close callback), the close
  callback is the last call of all and the only one of its kind, so it comes after every
  write callback.
\<close>

theorem xmlSaveNode_closes_once:
  assumes "saveToIO X encoding options (lib w) = (ctx, L1)"
    and "saveTree X ctx node L1 = ((qs1, r1), L2)"
    and "saveClose X ctx L2 = ((qs2, r2), L3)"
    and "xmlSaveNode X wbuffer node encoding options w = (r, w')"
  shows "r = r2
     \<and> calls w' = calls w @ [XmlSaveToIO wbuffer encoding options, XmlSaveTree ctx node]
                   @ io_events wbuffer qs1 @ [XmlSaveClose ctx] @ io_events wbuffer qs2
     \<and> filter is_XmlSaveClose (drop (length (calls w)) (calls w')) = [XmlSaveClose ctx]
     \<and> (Io_close \<notin> set qs1 \<and> (\<exists>ws. qs2 = ws @ [Io_close] \<and> Io_close \<notin> set ws) \<longrightarrow>
          (\<exists>pre. drop (length (calls w)) (calls w') = pre @ [Close_callback wbuffer]
                \<and> filter is_Close_callback pre = []))"
proof -
  from assms(4) xmlSaveNode_run [OF assms(1-3), of wbuffer] have
    r: "r = r2"
    and c: "calls w' = calls w @ [XmlSaveToIO wbuffer encoding options, XmlSaveTree ctx node]
                   @ io_events wbuffer qs1 @ [XmlSaveClose ctx] @ io_events wbuffer qs2"
    by auto
  have f: "filter is_XmlSaveClose (drop (length (calls w)) (calls w')) = [XmlSaveClose ctx]"
    by (simp add: c io_events_no_save_close)
  have g: "\<exists>pre. drop (length (calls w)) (calls w') = pre @ [Close_callback wbuffer]
                \<and> filter is_Close_callback pre = []"
    if q1: "Io_close \<notin> set qs1" and q2: "qs2 = ws @ [Io_close]" and q3: "Io_close \<notin> set ws"
    for ws
  proof -
    have "io_events wbuffer qs2 = io_events wbuffer ws @ [Close_callback wbuffer]"
      by (simp add: q2 io_events_append) (simp add: io_events_def)
    then have "drop (length (calls w)) (calls w') =
        ([XmlSaveToIO wbuffer encoding options, XmlSaveTree ctx node]
         @ io_events wbuffer qs1 @ [XmlSaveClose ctx] @ io_events wbuffer ws)
        @ [Close_callback wbuffer]"
      by (simp add: c)
    moreover have "filter is_Close_callback
        ([XmlSaveToIO wbuffer encoding options, XmlSaveTree ctx node]
         @ io_events wbuffer qs1 @ [XmlSaveClose ctx] @ io_events wbuffer ws) = []"
      by (simp add: io_events_no_close [OF q1] io_events_no_close [OF q3])
    ultimately show ?thesis by blast
  qed
  from r c f g show ?thesis by blast
qed

theorem xmlSaveNode_closes_once_witness:
  "saveToIO ex_lib None 0 (lib ex_world) = (0x5000, lib ex_world)
   \<and> saveTree ex_lib 0x5000 0x1000 (lib ex_world) = (([Io_write ''<r'' 2], 0), lib ex_world)
   \<and> saveClose ex_lib 0x5000 (lib ex_world)
       = (([Io_write ''/>'' 2, Io_close], 2), lib ex_world)
   \<and> fst (xmlSaveNode ex_lib 0x88 0x1000 None 0 ex_world) = 2
   \<and> calls (snd (xmlSaveNode ex_lib 0x88 0x1000 None 0 ex_world))
       = [XmlSaveToIO 0x88 None 0, XmlSaveTree 0x5000 0x1000,
          XmlNodeWriteCallback 0x88 ''<r'' 2, XmlSaveClose 0x5000,
          XmlNodeWriteCallback 0x88 ''/>'' 2, Close_callback 0x88]"
proof -
  have a: "saveToIO ex_lib None 0 (lib ex_world) = (0x5000, lib ex_world)"
    by (simp add: ex_lib_def)
  have b: "saveTree ex_lib 0x5000 0x1000 (lib ex_world)
             = (([Io_write ''<r'' 2], 0), lib ex_world)"
    by (simp add: ex_lib_def)
  have c: "saveClose ex_lib 0x5000 (lib ex_world)
             = (([Io_write ''/>'' 2, Io_close], 2), lib ex_world)"
    by (simp add: ex_lib_def)
  obtain r w' where d: "xmlSaveNode ex_lib 0x88 0x1000 None 0 ex_world = (r, w')"
    by (cases "xmlSaveNode ex_lib 0x88 0x1000 None 0 ex_world")
  have e: "calls ex_world = []" by (simp add: ex_world_def)
  from xmlSaveNode_closes_once [OF a b c d] d a b c show ?thesis
    by (simp add: e io_events_def)
qed

subsection \<open>Serializing a document and parsing the result\<close>

text \<open>\<open>xmlDocDumpToString\<close> returns the text the library's dump stored and drops its size;
  \<open>xmlParse\<close> returns the document the library's parser returned. So parsing what was
  serialized gives, through helper.c, exactly what the library's parser makes of the
  library's dump: whether that is the same tree is a property of libxml2.\<close>

lemma xmlDocDumpToString_run:
  assumes "docDumpFormatMemoryEnc X doc encoding format (lib w) = ((buff, buffersize), L1)"
  shows "xmlDocDumpToString X doc encoding format w =
     (buff, \<lparr>lib = L1, calls = calls w @ [XmlDocDumpFormatMemoryEnc doc encoding format]\<rparr>)"
  using assms
  by (simp add: xmlDocDumpToString_def xmlDocDumpFormatMemoryEnc_def emit_def)

lemma serialize_then_parse:
  assumes "docDumpFormatMemoryEnc X doc encoding format (lib w) = ((buff, buffersize), L1)"
    and "readMemory X buff len url encoding' options (L1\<lparr>lastError := None\<rparr>) = (doc', L2)"
    and "doc' \<noteq> NULL"
  shows "\<exists>w2. xmlParse X (fst (xmlDocDumpToString X doc encoding format w)) len url encoding'
                options error_buffer error_buffer_len
                (snd (xmlDocDumpToString X doc encoding format w))
              = Inr (doc', error_buffer, w2)"
proof -
  let ?w1 = "\<lparr>lib = L1, calls = calls w @ [XmlDocDumpFormatMemoryEnc doc encoding format]\<rparr>"
  have rd: "readMemory X buff len url encoding' options ((lib ?w1)\<lparr>lastError := None\<rparr>)
              = (doc', L2)"
    using assms(2) by simp
  show ?thesis
    unfolding xmlDocDumpToString_run [OF assms(1)] fst_conv snd_conv xmlParse_run [OF rd]
    using assms(3) by simp
qed

end
